theory Spec2Isabelle
  imports Main "HOL-Library.Multiset" "HOL-Library.Finite_Map" "HOL-Library.Char_ord"
    "HOL-Library.List_Lexorder"
begin

section \<open>Values, exceptions and the environment\<close>

text \<open>
  Python attributes are dynamically typed: \<open>from_dict\<close> stores whatever value the JSON
  document holds, without a type check. The attributes of cards, blocks and sets are
  therefore JSON values, the values \<open>json.load\<close> produces and \<open>json.dump\<close> accepts
  (floats are left out). A dict is an association list in insertion order.
  A \<open>string\<close> is a Python \<open>str\<close> whose characters are the code points U+0000 to U+00FF,
  so that \<open>length\<close> counts code points, as Python's \<open>len\<close> does.
\<close>

datatype json =
    JNull
  | JBool bool
  | JInt int
  | JStr string
  | JArr "json list"
  | JObj "(string \<times> json) list"

datatype exn =
    ValueError
  | IndexError
  | KeyError
  | TypeError
  | AttributeError
  | FileNotFoundError
  | OSError
  | IOError
  | JSONDecodeError
  | BadZipFile

text \<open>
  \<open>datetime.now().isoformat()\<close> and \<open>str(uuid.uuid4())\<close> are read from the environment.
  They only ever supply defaults for keys that a document lacks.
\<close>

record env =
  now :: string
  uuid4 :: string

text \<open>Python truthiness of a JSON value (\<open>if x:\<close>).\<close>

fun truthy :: "json \<Rightarrow> bool" where
  "truthy JNull = False"
| "truthy (JBool b) = b"
| "truthy (JInt i) = (i \<noteq> 0)"
| "truthy (JStr s) = (s \<noteq> [])"
| "truthy (JArr xs) = (xs \<noteq> [])"
| "truthy (JObj kvs) = (kvs \<noteq> [])"

text \<open>\<open>data.get(key, default)\<close>: only a dict has \<open>get\<close>.\<close>

fun py_get :: "json \<Rightarrow> string \<Rightarrow> json \<Rightarrow> exn + json" where
  "py_get (JObj kvs) k d = Inr (case map_of kvs k of None \<Rightarrow> d | Some v \<Rightarrow> v)"
| "py_get _ k d = Inl AttributeError"

text \<open>\<open>data[key]\<close> with a string key: KeyError on a dict without it, TypeError elsewhere.\<close>

fun py_subscript :: "json \<Rightarrow> string \<Rightarrow> exn + json" where
  "py_subscript (JObj kvs) k = (case map_of kvs k of None \<Rightarrow> Inl KeyError | Some v \<Rightarrow> Inr v)"
| "py_subscript _ k = Inl TypeError"

text \<open>\<open>for x in data\<close>: a list yields its elements, a dict its keys, a string its characters.\<close>

fun py_iter :: "json \<Rightarrow> exn + json list" where
  "py_iter (JArr xs) = Inr xs"
| "py_iter (JObj kvs) = Inr (map (\<lambda>kv. JStr (fst kv)) kvs)"
| "py_iter (JStr s) = Inr (map (\<lambda>c. JStr [c]) s)"
| "py_iter _ = Inl TypeError"

text \<open>A loop body that may raise, run over a list: the first exception ends the loop.\<close>

fun map_exn :: "('a \<Rightarrow> exn + 'b) \<Rightarrow> 'a list \<Rightarrow> exn + 'b list" where
  "map_exn f [] = Inr []"
| "map_exn f (x # xs) =
     (case f x of
        Inl e \<Rightarrow> Inl e
      | Inr y \<Rightarrow> (case map_exn f xs of Inl e \<Rightarrow> Inl e | Inr ys \<Rightarrow> Inr (y # ys)))"

section \<open>Content blocks (models/content\_blocks.py)\<close>

datatype content_block =
    TextBlock (block_id: json) (text_content: json) (font_size: json) (alignment: json)
      (block_created_date: json)
  | ImageBlock (block_id: json) (image_path: json) (original_filename: json) (width: json)
      (height: json) (block_created_date: json)
  | AudioBlock (block_id: json) (audio_path: json) (original_filename: json) (duration: json)
      (block_created_date: json)
  | VideoBlock (block_id: json) (video_path: json) (original_filename: json) (duration: json)
      (thumbnail_path: json) (block_created_date: json)

fun block_to_dict :: "content_block \<Rightarrow> json" where
  "block_to_dict (TextBlock bid txt fs al cd) =
     JObj [(''block_id'', bid), (''block_type'', JStr ''text''), (''text_content'', txt),
           (''font_size'', fs), (''alignment'', al), (''created_date'', cd)]"
| "block_to_dict (ImageBlock bid p orig w h cd) =
     JObj [(''block_id'', bid), (''block_type'', JStr ''image''), (''image_path'', p),
           (''original_filename'', orig), (''width'', w), (''height'', h),
           (''created_date'', cd)]"
| "block_to_dict (AudioBlock bid p orig dur cd) =
     JObj [(''block_id'', bid), (''block_type'', JStr ''audio''), (''audio_path'', p),
           (''original_filename'', orig), (''duration'', dur), (''created_date'', cd)]"
| "block_to_dict (VideoBlock bid p orig dur th cd) =
     JObj [(''block_id'', bid), (''block_type'', JStr ''video''), (''video_path'', p),
           (''original_filename'', orig), (''duration'', dur), (''thumbnail_path'', th),
           (''created_date'', cd)]"

text \<open>\<open>dict.get\<close> on a value already known to be a dict.\<close>

definition dget :: "(string \<times> json) list \<Rightarrow> string \<Rightarrow> json \<Rightarrow> json" where
  "dget kvs k d = (case map_of kvs k of None \<Rightarrow> d | Some v \<Rightarrow> v)"

definition TextBlock_from_dict :: "env \<Rightarrow> (string \<times> json) list \<Rightarrow> content_block" where
  "TextBlock_from_dict e kvs =
     TextBlock (dget kvs ''block_id'' (JStr (uuid4 e))) (dget kvs ''text_content'' (JStr ''''))
       (dget kvs ''font_size'' (JInt 12)) (dget kvs ''alignment'' (JStr ''left''))
       (dget kvs ''created_date'' (JStr (now e)))"

definition ImageBlock_from_dict :: "env \<Rightarrow> (string \<times> json) list \<Rightarrow> content_block" where
  "ImageBlock_from_dict e kvs =
     ImageBlock (dget kvs ''block_id'' (JStr (uuid4 e))) (dget kvs ''image_path'' (JStr ''''))
       (dget kvs ''original_filename'' (JStr '''')) (dget kvs ''width'' (JInt 0))
       (dget kvs ''height'' (JInt 0)) (dget kvs ''created_date'' (JStr (now e)))"

definition AudioBlock_from_dict :: "env \<Rightarrow> (string \<times> json) list \<Rightarrow> content_block" where
  "AudioBlock_from_dict e kvs =
     AudioBlock (dget kvs ''block_id'' (JStr (uuid4 e))) (dget kvs ''audio_path'' (JStr ''''))
       (dget kvs ''original_filename'' (JStr '''')) (dget kvs ''duration'' (JInt 0))
       (dget kvs ''created_date'' (JStr (now e)))"

definition VideoBlock_from_dict :: "env \<Rightarrow> (string \<times> json) list \<Rightarrow> content_block" where
  "VideoBlock_from_dict e kvs =
     VideoBlock (dget kvs ''block_id'' (JStr (uuid4 e))) (dget kvs ''video_path'' (JStr ''''))
       (dget kvs ''original_filename'' (JStr '''')) (dget kvs ''duration'' (JInt 0))
       (dget kvs ''thumbnail_path'' (JStr '''')) (dget kvs ''created_date'' (JStr (now e)))"

fun create_block_from_dict :: "env \<Rightarrow> json \<Rightarrow> exn + content_block" where
  "create_block_from_dict e (JObj kvs) =
     (let block_type = dget kvs ''block_type'' JNull in
      if block_type = JStr ''text'' then Inr (TextBlock_from_dict e kvs)
      else if block_type = JStr ''image'' then Inr (ImageBlock_from_dict e kvs)
      else if block_type = JStr ''audio'' then Inr (AudioBlock_from_dict e kvs)
      else if block_type = JStr ''video'' then Inr (VideoBlock_from_dict e kvs)
      else Inl ValueError)"
| "create_block_from_dict e _ = Inl AttributeError"

section \<open>Cards and sets (models/flashcard.py)\<close>

record flash_card =
  card_id :: json
  information_side :: "content_block list"
  answer_side :: "content_block list"
  status :: json
  card_created_date :: json
  last_studied :: json

text \<open>\<open>FlashCard(card_id)\<close>: a falsy identifier is replaced by a fresh one.\<close>

definition FlashCard :: "env \<Rightarrow> json \<Rightarrow> flash_card" where
  "FlashCard e cid =
     \<lparr>card_id = (if truthy cid then cid else JStr (uuid4 e)),
      information_side = [], answer_side = [], status = JStr ''Unknown'',
      card_created_date = JStr (now e), last_studied = JNull\<rparr>"

definition add_block_to_side :: "string \<Rightarrow> content_block \<Rightarrow> flash_card \<Rightarrow> exn + flash_card" where
  "add_block_to_side side block c =
     (if side = ''information'' then
        (if length (information_side c) \<ge> 10 then Inl ValueError
         else Inr (c\<lparr>information_side := information_side c @ [block]\<rparr>))
      else if side = ''answer'' then
        (if length (answer_side c) \<ge> 10 then Inl ValueError
         else Inr (c\<lparr>answer_side := answer_side c @ [block]\<rparr>))
      else Inl ValueError)"

text \<open>\<open>del xs[i]\<close> and \<open>xs.pop(i)\<close> at an index already checked to be in range.\<close>

definition del_at :: "nat \<Rightarrow> 'a list \<Rightarrow> 'a list" where
  "del_at i xs = take i xs @ drop (Suc i) xs"

text \<open>\<open>xs.insert(i, x)\<close> for \<open>i \<ge> 0\<close>: before position \<open>i\<close>, at the end when \<open>i\<close> is past it.\<close>

definition insert_at :: "nat \<Rightarrow> 'a \<Rightarrow> 'a list \<Rightarrow> 'a list" where
  "insert_at i x xs = take i xs @ x # drop i xs"

definition in_range :: "int \<Rightarrow> 'a list \<Rightarrow> bool" where
  "in_range i xs = (0 \<le> i \<and> i < int (length xs))"

definition remove_block_from_side :: "string \<Rightarrow> int \<Rightarrow> flash_card \<Rightarrow> exn + flash_card" where
  "remove_block_from_side side block_index c =
     (if side = ''information'' then
        (if in_range block_index (information_side c)
         then Inr (c\<lparr>information_side := del_at (nat block_index) (information_side c)\<rparr>)
         else Inl IndexError)
      else if side = ''answer'' then
        (if in_range block_index (answer_side c)
         then Inr (c\<lparr>answer_side := del_at (nat block_index) (answer_side c)\<rparr>)
         else Inl IndexError)
      else Inl ValueError)"

definition move_in_list :: "int \<Rightarrow> int \<Rightarrow> 'a list \<Rightarrow> exn + 'a list" where
  "move_in_list from_index to_index xs =
     (if \<not> (in_range from_index xs \<and> in_range to_index xs) then Inl IndexError
      else let x = xs ! nat from_index
           in Inr (insert_at (nat to_index) x (del_at (nat from_index) xs)))"

definition move_block :: "string \<Rightarrow> int \<Rightarrow> int \<Rightarrow> flash_card \<Rightarrow> exn + flash_card" where
  "move_block side from_index to_index c =
     (if side = ''information'' then
        (case move_in_list from_index to_index (information_side c) of
           Inl e \<Rightarrow> Inl e
         | Inr blocks \<Rightarrow> Inr (c\<lparr>information_side := blocks\<rparr>))
      else if side = ''answer'' then
        (case move_in_list from_index to_index (answer_side c) of
           Inl e \<Rightarrow> Inl e
         | Inr blocks \<Rightarrow> Inr (c\<lparr>answer_side := blocks\<rparr>))
      else Inl ValueError)"

definition card_to_dict :: "flash_card \<Rightarrow> json" where
  "card_to_dict c =
     JObj [(''card_id'', card_id c),
           (''information_side'', JArr (map block_to_dict (information_side c))),
           (''answer_side'', JArr (map block_to_dict (answer_side c))),
           (''status'', status c),
           (''created_date'', card_created_date c),
           (''last_studied'', last_studied c)]"

fun FlashCard_from_dict :: "env \<Rightarrow> json \<Rightarrow> exn + flash_card" where
  "FlashCard_from_dict e (JObj kvs) =
     (let card = FlashCard e (dget kvs ''card_id'' JNull) in
      case py_iter (dget kvs ''information_side'' (JArr [])) of
        Inl x \<Rightarrow> Inl x
      | Inr info_data \<Rightarrow>
      (case map_exn (create_block_from_dict e) info_data of
        Inl x \<Rightarrow> Inl x
      | Inr info_blocks \<Rightarrow>
      (case py_iter (dget kvs ''answer_side'' (JArr [])) of
        Inl x \<Rightarrow> Inl x
      | Inr answer_data \<Rightarrow>
      (case map_exn (create_block_from_dict e) answer_data of
        Inl x \<Rightarrow> Inl x
      | Inr answer_blocks \<Rightarrow>
          Inr (card\<lparr>information_side := information_side card @ info_blocks,
                    answer_side := answer_side card @ answer_blocks,
                    status := dget kvs ''status'' (JStr ''Unknown''),
                    card_created_date := dget kvs ''created_date'' (card_created_date card),
                    last_studied := dget kvs ''last_studied'' JNull\<rparr>)))))"
| "FlashCard_from_dict e _ = Inl AttributeError"

record flash_card_set =
  name :: json
  description :: json
  icon_set :: json
  tags :: json
  difficulty_level :: json
  created_date :: json
  last_accessed :: json
  cards :: "flash_card list"

definition FlashCardSet :: "env \<Rightarrow> json \<Rightarrow> json \<Rightarrow> flash_card_set" where
  "FlashCardSet e nm descr =
     \<lparr>name = nm, description = descr, icon_set = JStr ''default'', tags = JArr [],
      difficulty_level = JInt 1, created_date = JStr (now e), last_accessed = JNull,
      cards = []\<rparr>"

definition card_count :: "flash_card_set \<Rightarrow> int" where
  "card_count s = int (length (cards s))"

definition move_card :: "int \<Rightarrow> int \<Rightarrow> flash_card_set \<Rightarrow> exn + flash_card_set" where
  "move_card from_index to_index s =
     (case move_in_list from_index to_index (cards s) of
        Inl e \<Rightarrow> Inl e
      | Inr cs \<Rightarrow> Inr (s\<lparr>cards := cs\<rparr>))"

definition update_last_accessed :: "env \<Rightarrow> flash_card_set \<Rightarrow> flash_card_set" where
  "update_last_accessed e s = s\<lparr>last_accessed := JStr (now e)\<rparr>"

definition to_dict :: "flash_card_set \<Rightarrow> json" where
  "to_dict s =
     JObj [(''name'', name s), (''description'', description s), (''icon_set'', icon_set s),
           (''tags'', tags s), (''difficulty_level'', difficulty_level s),
           (''created_date'', created_date s), (''last_accessed'', last_accessed s),
           (''card_count'', JInt (card_count s))]"

definition cards_to_dict :: "flash_card_set \<Rightarrow> json" where
  "cards_to_dict s = JObj [(''cards'', JArr (map card_to_dict (cards s)))]"

text \<open>
  \<open>FlashCardSet.from_dict(set_data, cards_data)\<close>; \<open>cards_data\<close> is \<open>None\<close> when the caller
  found no card file. \<open>set_data["name"]\<close> raises unless \<open>set_data\<close> is a dict with that key.
\<close>

definition load_cards :: "env \<Rightarrow> json option \<Rightarrow> exn + flash_card list" where
  "load_cards e cards_data =
     (case cards_data of
        None \<Rightarrow> Inr []
      | Some cd \<Rightarrow>
          if \<not> truthy cd then Inr []
          else (case py_get cd ''cards'' (JArr []) of
                  Inl x \<Rightarrow> Inl x
                | Inr lst \<Rightarrow>
                    (case py_iter lst of
                       Inl x \<Rightarrow> Inl x
                     | Inr items \<Rightarrow> map_exn (FlashCard_from_dict e) items)))"

definition from_dict :: "env \<Rightarrow> json \<Rightarrow> json option \<Rightarrow> exn + flash_card_set" where
  "from_dict e set_data cards_data =
     (case py_subscript set_data ''name'' of
        Inl x \<Rightarrow> Inl x
      | Inr nm \<Rightarrow>
          (case set_data of
             JObj kvs \<Rightarrow>
               (let flash_set = FlashCardSet e nm (dget kvs ''description'' (JStr ''''));
                    flash_set = flash_set
                      \<lparr>icon_set := dget kvs ''icon_set'' (JStr ''default''),
                       tags := dget kvs ''tags'' (JArr []),
                       difficulty_level := dget kvs ''difficulty_level'' (JInt 1),
                       created_date := dget kvs ''created_date'' (created_date flash_set),
                       last_accessed := dget kvs ''last_accessed'' JNull\<rparr>
                in case load_cards e cards_data of
                     Inl x \<Rightarrow> Inl x
                   | Inr cs \<Rightarrow> Inr (flash_set\<lparr>cards := cards flash_set @ cs\<rparr>))
           | _ \<Rightarrow> Inl AttributeError))"

definition capped :: "flash_card \<Rightarrow> bool" where
  "capped c = (length (information_side c) \<le> 10 \<and> length (answer_side c) \<le> 10)"

definition three_card_set :: flash_card_set where
  "three_card_set =
     (FlashCardSet \<lparr>now = ''t'', uuid4 = ''u''\<rparr> (JStr ''S'') (JStr ''''))
       \<lparr>cards := map (FlashCard \<lparr>now = ''t'', uuid4 = ''u''\<rparr>)
                    [JStr ''a'', JStr ''b'', JStr ''c'']\<rparr>"

definition eleven_block_card :: json where
  "eleven_block_card =
     JObj [(''card_id'', JStr ''c1''),
           (''information_side'',
              JArr (replicate 11 (JObj [(''block_id'', JStr ''b''), (''block_type'', JStr ''text'')]))),
           (''answer_side'', JArr [])]"

section \<open>File names (utils/file\_manager.py, pathlib)\<close>

definition invalid_chars :: string where
  "invalid_chars =
     [CHR ''<'', CHR ''>'', CHR '':'', CHR 0x22, CHR ''/'', CHR 0x5C, CHR ''|'', CHR ''?'', CHR ''*'']"

definition re_sub :: "string \<Rightarrow> string" where
  "re_sub filename = map (\<lambda>c. if c \<in> set invalid_chars then CHR ''_'' else c) filename"

definition py_strip :: "string \<Rightarrow> string \<Rightarrow> string" where
  "py_strip chars s =
     rev (dropWhile (\<lambda>c. c \<in> set chars) (rev (dropWhile (\<lambda>c. c \<in> set chars) s)))"

definition rfind :: "char \<Rightarrow> string \<Rightarrow> int" where
  "rfind c s =
     (if c \<in> set s then int (length s) - 1 - int (length (takeWhile (\<lambda>x. x \<noteq> c) (rev s)))
      else - 1)"

definition path_suffix :: "string \<Rightarrow> string" where
  "path_suffix nm =
     (let i = rfind CHR ''.'' nm
      in if 0 < i \<and> i < int (length nm) - 1 then drop (nat i) nm else [])"

definition path_stem :: "string \<Rightarrow> string" where
  "path_stem nm =
     (let i = rfind CHR ''.'' nm
      in if 0 < i \<and> i < int (length nm) - 1 then take (nat i) nm else nm)"

definition py_prefix :: "int \<Rightarrow> 'a list \<Rightarrow> 'a list" where
  "py_prefix n xs = (if 0 \<le> n then take (nat n) xs else take (nat (int (length xs) + n)) xs)"

definition safe_filename :: "string \<Rightarrow> string" where
  "safe_filename filename =
     (let filename = re_sub filename;
          filename = py_strip '' .'' filename;
          filename = (if filename = [] then ''untitled'' else filename)
      in if length filename > 255
         then (let nm = path_stem filename; ext = path_suffix filename
               in py_prefix (255 - int (length ext)) nm @ ext)
         else filename)"


definition digit_char :: "nat \<Rightarrow> char" where
  "digit_char d = char_of (48 + d)"

function py_str :: "nat \<Rightarrow> string" where
  "py_str n = (if n < 10 then [digit_char n] else py_str (n div 10) @ [digit_char (n mod 10)])"
  by pat_completeness auto
termination
  by (relation "measure id") auto

declare py_str.simps [simp del]

definition digit_val :: "char \<Rightarrow> nat" where
  "digit_val c = of_char c - 48"

definition digits_val :: "string \<Rightarrow> nat" where
  "digits_val s = foldl (\<lambda>a c. 10 * a + digit_val c) 0 s"

lemma digit_val_digit_char: "d < 10 \<Longrightarrow> digit_val (digit_char d) = d"
  by (simp add: digit_val_def digit_char_def)

lemma digits_val_py_str: "digits_val (py_str n) = n"
proof (induction n rule: py_str.induct)
  case (1 n)
  show ?case
  proof (cases "n < 10")
    case True
    then show ?thesis
      by (subst py_str.simps) (simp add: digits_val_def digit_val_digit_char)
  next
    case False
    with 1 have "digits_val (py_str (n div 10)) = n div 10" by simp
    with False show ?thesis
      by (subst py_str.simps) (simp add: digits_val_def digit_val_digit_char)
  qed
qed

lemma py_str_inj: "py_str m = py_str n \<Longrightarrow> m = n"
  by (metis digits_val_py_str)

lemma numbered_inj: "pre @ py_str m @ post = pre @ py_str n @ post \<Longrightarrow> m = n"
  by (simp add: py_str_inj)

lemma finite_numbered: "finite A \<Longrightarrow> finite {k. pre @ py_str k @ post \<in> A}"
proof -
  assume "finite A"
  moreover have "inj (\<lambda>k. pre @ py_str k @ post)"
    by (rule injI) (rule numbered_inj)
  ultimately have "finite ((\<lambda>k. pre @ py_str k @ post) -` A)"
    by (rule finite_vimageI)
  then show ?thesis by (simp add: vimage_def)
qed

lemma numbered_card_Suc:
  assumes "finite A"
  shows "card {k. c \<le> k \<and> pre @ py_str k @ post \<in> A}
       = card {k. Suc c \<le> k \<and> pre @ py_str k @ post \<in> A}
         + (if pre @ py_str c @ post \<in> A then 1 else 0)"
proof (cases "pre @ py_str c @ post \<in> A")
  case True
  have fin: "finite {k. Suc c \<le> k \<and> pre @ py_str k @ post \<in> A}"
    using finite_numbered [OF assms, of pre post] by simp
  have "{k. c \<le> k \<and> pre @ py_str k @ post \<in> A}
      = insert c {k. Suc c \<le> k \<and> pre @ py_str k @ post \<in> A}"
    using True by (auto simp: Suc_le_eq le_less)
  then show ?thesis using True fin by simp
next
  case False
  then have "{k. c \<le> k \<and> pre @ py_str k @ post \<in> A}
      = {k. Suc c \<le> k \<and> pre @ py_str k @ post \<in> A}"
    by (auto simp: Suc_le_eq le_less)
  with False show ?thesis by simp
qed

lemma numbered_card_less:
  assumes "finite A" and "pre @ py_str c @ post \<in> A"
  shows "card {k. Suc c \<le> k \<and> pre @ py_str k @ post \<in> A}
       < card {k. c \<le> k \<and> pre @ py_str k @ post \<in> A}"
  using numbered_card_Suc [OF assms(1), of c pre post] assms(2) by simp

type_synonym bytes = string

text \<open>
  The loop of \<open>copy_media_file\<close> that looks for a free name: \<open>dest_path\<close> starts as
  the sanitized name and becomes \<open>stem_counter.suffix\<close> while it exists in the folder.
\<close>

definition numbered :: "string \<Rightarrow> nat \<Rightarrow> string" where
  "numbered safe_name counter =
     path_stem safe_name @ ''_'' @ py_str counter @ path_suffix safe_name"

function unique_dest :: "(string, bytes) fmap \<Rightarrow> string \<Rightarrow> string \<Rightarrow> nat \<Rightarrow> string" where
  "unique_dest dest_dir safe_name dest_path counter =
     (if dest_path |\<in>| fmdom dest_dir
      then unique_dest dest_dir safe_name (numbered safe_name counter) (Suc counter)
      else dest_path)"
  by pat_completeness auto
termination
proof (relation "measure (\<lambda>(dest_dir, safe_name, dest_path, counter).
    card {k. counter \<le> k
           \<and> (path_stem safe_name @ ''_'') @ py_str k @ path_suffix safe_name \<in> fmdom' dest_dir}
    + (if dest_path |\<in>| fmdom dest_dir then 1 else 0))", goal_cases)
  case 1
  show ?case by simp
next
  case (2 dest_dir safe_name dest_path counter)
  have "finite (fmdom' dest_dir)" by (simp add: fmdom'_alt_def)
  from numbered_card_Suc [OF this, of counter "path_stem safe_name @ ''_''" "path_suffix safe_name"] 2
  show ?case by (auto simp: fmdom'_alt_def numbered_def)
qed

declare unique_dest.simps [simp del]

section \<open>The vault on disk (vault/vault\_manager.py)\<close>

text \<open>
  A JSON file on disk either cannot be read, or holds text that \<open>json.load\<close> rejects, or
  holds a document. A set directory has its two JSON files, if present, the files of its
  \<open>images\<close> and \<open>sounds\<close> folders, and any other files; a missing media folder and an
  empty one are not told apart. Names are single path components.
\<close>

datatype jfile = Unreadable | Malformed | Doc json

record set_dir =
  set_json :: "jfile option"
  cards_json :: "jfile option"
  images :: "(string, bytes) fmap"
  sounds :: "(string, bytes) fmap"
  other_files :: "(string, bytes) fmap"

definition empty_set_dir :: set_dir where
  "empty_set_dir =
     \<lparr>set_json = None, cards_json = None, images = fmempty, sounds = fmempty,
      other_files = fmempty\<rparr>"

type_synonym icon_dir = "(string, bytes) fmap"

record icon_manager =
  icons_path :: "(string, icon_dir) fmap"
  available_icon_sets :: "string fset"

record vault =
  sets_path :: "(string, set_dir) fmap"
  sets_cache :: "(string, flash_card_set) fmap"
  icon_manager :: "icon_manager option"

text \<open>
  What the storage engine takes from its host: the conflict dialog (absent when PyQt is
  not available), the faults of the file system while a set directory is copied, and the
  renderer of the default icons. \<open>copy_fault original dest\<close> is \<open>None\<close> when
  \<open>rmtree\<close> and \<open>copytree\<close> succeed, and \<open>Some r\<close> when one of them raises, leaving \<open>r\<close>
  at the destination (\<open>None\<close>: nothing; \<open>Some d\<close>: a partial directory).
\<close>

datatype decision = Import string | Ignore | IgnoreAll | Closed

record host =
  conflict_dialog :: "(string \<Rightarrow> string \<Rightarrow> decision) option"
  copy_fault :: "string \<Rightarrow> string \<Rightarrow> set_dir option option"
  default_icon :: "nat \<Rightarrow> bytes"

definition set_file :: "(string, set_dir) fmap \<Rightarrow> string \<Rightarrow> jfile option" where
  "set_file sets set_name =
     (case fmlookup sets set_name of None \<Rightarrow> None | Some d \<Rightarrow> set_json d)"

definition cards_file :: "(string, set_dir) fmap \<Rightarrow> string \<Rightarrow> jfile option" where
  "cards_file sets set_name =
     (case fmlookup sets set_name of None \<Rightarrow> None | Some d \<Rightarrow> cards_json d)"

text \<open>\<open>get_available_sets\<close>: the sorted names of the directories that hold a \<open>set.json\<close>.\<close>

definition get_available_sets :: "(string, set_dir) fmap \<Rightarrow> string list" where
  "get_available_sets sets =
     sorted_list_of_fset (ffilter (\<lambda>n. set_file sets n \<noteq> None) (fmdom sets))"

text \<open>\<open>open\<close> followed by \<open>json.load\<close>.\<close>

fun read_json :: "jfile \<Rightarrow> exn + json" where
  "read_json Unreadable = Inl OSError"
| "read_json Malformed = Inl JSONDecodeError"
| "read_json (Doc j) = Inr j"

definition load_set_body :: "env \<Rightarrow> jfile \<Rightarrow> jfile option \<Rightarrow> exn + flash_card_set" where
  "load_set_body e sf cf =
     (case read_json sf of
        Inl x \<Rightarrow> Inl x
      | Inr set_data \<Rightarrow>
          (case (case cf of
                   None \<Rightarrow> Inr None
                 | Some f \<Rightarrow> (case read_json f of Inl x \<Rightarrow> Inl x | Inr j \<Rightarrow> Inr (Some j))) of
             Inl x \<Rightarrow> Inl x
           | Inr cards_data \<Rightarrow>
               (case from_dict e set_data cards_data of
                  Inl x \<Rightarrow> Inl x
                | Inr flash_set \<Rightarrow> Inr (update_last_accessed e flash_set))))"

definition load_set :: "env \<Rightarrow> string \<Rightarrow> vault \<Rightarrow> (exn + flash_card_set) \<times> vault" where
  "load_set e set_name v =
     (case fmlookup (sets_cache v) set_name of
        Some cached \<Rightarrow> (Inr cached, v)
      | None \<Rightarrow>
          (case set_file (sets_path v) set_name of
             None \<Rightarrow> (Inl FileNotFoundError, v)
           | Some sf \<Rightarrow>
               (case load_set_body e sf (cards_file (sets_path v) set_name) of
                  Inl JSONDecodeError \<Rightarrow> (Inl ValueError, v)
                | Inl _ \<Rightarrow> (Inl IOError, v)
                | Inr flash_set \<Rightarrow>
                    (Inr flash_set,
                     v\<lparr>sets_cache := fmupd set_name flash_set (sets_cache v)\<rparr>))))"

text \<open>
  \<open>save_set\<close>: \<open>self.sets_path / set_name\<close> raises TypeError unless the name is a string;
  \<open>mkdir(exist_ok=True)\<close> keeps a directory that is already there.
\<close>

definition save_set :: "flash_card_set \<Rightarrow> vault \<Rightarrow> (exn + unit) \<times> vault" where
  "save_set flash_card_set v =
     (case name flash_card_set of
        JStr set_name \<Rightarrow>
          (let d = (case fmlookup (sets_path v) set_name of
                      None \<Rightarrow> empty_set_dir
                    | Some d \<Rightarrow> d);
               d = d\<lparr>set_json := Some (Doc (to_dict flash_card_set)),
                      cards_json := Some (Doc (cards_to_dict flash_card_set))\<rparr>
           in (Inr (),
               v\<lparr>sets_path := fmupd set_name d (sets_path v),
                 sets_cache := fmupd set_name flash_card_set (sets_cache v)\<rparr>))
      | _ \<Rightarrow> (Inl TypeError, v))"

definition clear_cache :: "vault \<Rightarrow> vault" where
  "clear_cache v = v\<lparr>sets_cache := fmempty\<rparr>"

text \<open>
  \<open>validate_set_name\<close>; \<open>name.strip()\<close> trims the white space of the code points
  up to U+00FF.
\<close>

definition py_whitespace :: string where
  "py_whitespace =
     [CHR 0x09, CHR 0x0A, CHR 0x0B, CHR 0x0C, CHR 0x0D, CHR 0x1C, CHR 0x1D, CHR 0x1E, CHR 0x1F,
      CHR 0x20, CHR 0x85, CHR 0xA0]"

definition validate_set_name :: "string \<Rightarrow> (string, set_dir) fmap \<Rightarrow> bool \<times> string" where
  "validate_set_name nm sets =
     (if nm = [] \<or> length (py_strip py_whitespace nm) = 0
        then (False, ''Set name cannot be empty'')
      else if length nm > 128 then (False, ''Set name cannot exceed 128 characters'')
      else if list_ex (\<lambda>c. c \<in> set nm) invalid_chars
        then (False, ''Set name contains invalid characters'')
      else if nm \<in> set (get_available_sets sets) then (False, ''Set name already exists'')
      else (True, ''''))"

subsection \<open>Icon sets (vault/icon\_manager.py)\<close>

definition icon_sizes :: "nat list" where
  "icon_sizes = [256, 128, 64, 32, 16]"

definition icon_file :: "nat \<Rightarrow> string" where
  "icon_file sz = py_str sz @ ''.png''"

text \<open>\<open>validate_icon_set\<close> of a path that may not exist.\<close>

definition validate_icon_set :: "icon_dir option \<Rightarrow> bool" where
  "validate_icon_set p =
     (case p of
        None \<Rightarrow> False
      | Some files \<Rightarrow> list_all (\<lambda>sz. icon_file sz |\<in>| fmdom files) icon_sizes)"

definition install_default_icon_collection ::
  "(nat \<Rightarrow> bytes) \<Rightarrow> (string, icon_dir) fmap \<Rightarrow> (string, icon_dir) fmap" where
  "install_default_icon_collection render icons =
     (let default_path = (case fmlookup icons ''default'' of None \<Rightarrow> fmempty | Some d \<Rightarrow> d)
      in fmupd ''default''
           (foldl (\<lambda>d sz. if icon_file sz |\<in>| fmdom d then d
                             else fmupd (icon_file sz) (render sz) d)
              default_path icon_sizes)
           icons)"

definition refresh_available_icons :: "(nat \<Rightarrow> bytes) \<Rightarrow> icon_manager \<Rightarrow> icon_manager" where
  "refresh_available_icons render im =
     (let avail = ffilter (\<lambda>n. validate_icon_set (fmlookup (icons_path im) n))
                    (fmdom (icons_path im))
      in if ''default'' |\<notin>| avail
         then \<lparr>icons_path = install_default_icon_collection render (icons_path im),
               available_icon_sets = finsert ''default'' avail\<rparr>
         else \<lparr>icons_path = icons_path im, available_icon_sets = avail\<rparr>)"

subsection \<open>Importing one set\<close>

text \<open>
  An archive that \<open>zipfile\<close> rejects, one that cannot be opened, or an extracted tree.
  Of the tree of a set archive, \<open>import_set\<close> sees the directories that hold a
  \<open>set.json\<close>, in the order of \<open>rglob\<close>, and the directories under \<open>icons/\<close>, if
  that folder exists.
\<close>

datatype 'a zip_file = BadZip | Unopenable | Zip 'a

record set_archive =
  set_json_dirs :: "set_dir list"
  archive_icons :: "(string \<times> icon_dir) list option"

text \<open>\<open>d[k] = v\<close> on a dict keeps the position of a key that is already there.\<close>

fun dict_set :: "string \<Rightarrow> json \<Rightarrow> (string \<times> json) list \<Rightarrow> (string \<times> json) list" where
  "dict_set k v [] = [(k, v)]"
| "dict_set k v (kv # kvs) = (if fst kv = k then (k, v) # kvs else kv # dict_set k v kvs)"

text \<open>\<open>data[k] = v\<close>: TypeError on anything but a dict.\<close>

fun py_setitem :: "json \<Rightarrow> string \<Rightarrow> json \<Rightarrow> exn + json" where
  "py_setitem (JObj kvs) k v = Inr (JObj (dict_set k v kvs))"
| "py_setitem _ k v = Inl TypeError"

text \<open>
  The icon loop of \<open>import_set\<close>: an icon set that is already there is replaced only when
  it does not validate.
\<close>

definition import_set_icon ::
  "(string, icon_dir) fmap \<Rightarrow> string \<times> icon_dir \<Rightarrow> (string, icon_dir) fmap" where
  "import_set_icon icons entry =
     (case fmlookup icons (fst entry) of
        Some old \<Rightarrow>
          if \<not> validate_icon_set (Some old) then fmupd (fst entry) (snd entry) icons else icons
      | None \<Rightarrow> fmupd (fst entry) (snd entry) icons)"

definition import_set_icons ::
  "host \<Rightarrow> (string \<times> icon_dir) list option \<Rightarrow> icon_manager option \<Rightarrow> icon_manager option" where
  "import_set_icons h icons_source im =
     (case im of
        None \<Rightarrow> None
      | Some m \<Rightarrow>
          (case icons_source of
             None \<Rightarrow> Some m
           | Some dirs \<Rightarrow>
               Some (refresh_available_icons (default_icon h)
                       (m\<lparr>icons_path := foldl import_set_icon (icons_path m) dirs\<rparr>))))"

text \<open>
  The body of the \<open>try\<close> of \<open>import_set\<close>. The loop that numbers a suggested name only
  feeds the text of the error message, which the model does not carry.
\<close>

definition import_set_body ::
  "host \<Rightarrow> set_archive zip_file \<Rightarrow> string option \<Rightarrow> vault \<Rightarrow> exn + string \<times> vault" where
  "import_set_body h zip_path new_name v =
     (case zip_path of
        BadZip \<Rightarrow> Inl BadZipFile
      | Unopenable \<Rightarrow> Inl FileNotFoundError
      | Zip a \<Rightarrow>
          (case set_json_dirs a of
             [] \<Rightarrow> Inl ValueError
           | set_source # _ \<Rightarrow>
               (case (case set_json set_source of
                        None \<Rightarrow> Inl FileNotFoundError
                      | Some f \<Rightarrow> read_json f) of
                  Inl x \<Rightarrow> Inl x
                | Inr set_data \<Rightarrow>
                    (case py_get set_data ''name'' (JStr ''Unknown'') of
                       Inl x \<Rightarrow> Inl x
                     | Inr original_name \<Rightarrow>
                         (let import_name =
                                (case new_name of
                                   None \<Rightarrow> original_name
                                 | Some n \<Rightarrow> if n \<noteq> [] then JStr n else original_name)
                          in if (case import_name of
                                   JStr n \<Rightarrow> n \<in> set (get_available_sets (sets_path v))
                                 | _ \<Rightarrow> False)
                             then Inl ValueError
                             else
                               (case (if import_name \<noteq> original_name
                                      then py_setitem set_data ''name'' import_name
                                      else Inr set_data) of
                                  Inl x \<Rightarrow> Inl x
                                | Inr set_data \<Rightarrow>
                                    (case import_name of
                                       JStr n \<Rightarrow>
                                         Inr (n,
                                           v\<lparr>sets_path :=
                                                fmupd n (set_source\<lparr>set_json := Some (Doc set_data)\<rparr>)
                                                  (sets_path v),
                                             icon_manager :=
                                                import_set_icons h (archive_icons a)
                                                  (icon_manager v)\<rparr>)
                                     | _ \<Rightarrow> Inl TypeError)))))))"

text \<open>
  \<open>import_set\<close>: \<open>except zipfile.BadZipFile\<close> gives ValueError, and \<open>except Exception\<close>
  turns every other exception of the body into IOError.
\<close>

definition import_set ::
  "host \<Rightarrow> set_archive zip_file \<Rightarrow> string option \<Rightarrow> vault \<Rightarrow> (exn + string) \<times> vault" where
  "import_set h zip_path new_name v =
     (case import_set_body h zip_path new_name v of
        Inl BadZipFile \<Rightarrow> (Inl ValueError, v)
      | Inl _ \<Rightarrow> (Inl IOError, v)
      | Inr (import_name, v') \<Rightarrow> (Inr import_name, v'))"

subsection \<open>Importing a vault\<close>

text \<open>
  Of the tree of a vault archive, \<open>import_vault\<close> sees the directories under the imported
  sets folder and those under the imported icons folder, each in the order of \<open>iterdir\<close>,
  if the folder exists.
\<close>

record vault_archive =
  imported_sets :: "(string \<times> set_dir) list option"
  imported_icons :: "(string \<times> icon_dir) list option"

record import_results =
  imported :: "string list"
  ignored :: "string list"
  renamed :: "(string \<times> string) list"

text \<open>
  The state of the merge loop. \<open>disk\<close> holds the set directories under the sets folder,
  \<open>sets_gone\<close> says that the sets folder itself is missing (no directory is under it
  then), and \<open>raised\<close> that an exception has left the loop.
\<close>

record merge_state = import_results +
  disk :: "(string, set_dir) fmap"
  sets_gone :: bool
  existing_sets :: "string fset"
  ignore_all :: bool
  raised :: bool

text \<open>The numbering loop: \<open>counter\<close> goes up until the numbered name is free.\<close>

function auto_rename :: "string \<Rightarrow> string fset \<Rightarrow> nat \<Rightarrow> string" where
  "auto_rename original_name existing counter =
     (if original_name @ '' '' @ py_str counter |\<in>| existing
      then auto_rename original_name existing (Suc counter)
      else original_name @ '' '' @ py_str counter)"
  by pat_completeness auto
termination
proof (relation "measure (\<lambda>(original_name, existing, counter).
    card {k. counter \<le> k \<and> (original_name @ '' '') @ py_str k @ [] \<in> fset existing})",
    goal_cases)
  case 1
  show ?case by simp
next
  case (2 original_name existing counter)
  have "finite (fset existing)" by simp
  from numbered_card_less [OF this, of "original_name @ '' ''" counter "[]"] 2
  show ?case by simp
qed

declare auto_rename.simps [simp del]

text \<open>
  Rewriting the name in the copied \<open>set.json\<close>: a missing file is skipped, a
  JSONDecodeError is passed over, any other exception leaves the \<open>try\<close> of the caller.
\<close>

definition rename_metadata :: "env \<Rightarrow> string \<Rightarrow> set_dir \<Rightarrow> exn + set_dir" where
  "rename_metadata e import_name d =
     (case set_json d of
        None \<Rightarrow> Inr d
      | Some f \<Rightarrow>
          (case read_json f of
             Inl JSONDecodeError \<Rightarrow> Inr d
           | Inl x \<Rightarrow> Inl x
           | Inr set_data \<Rightarrow>
               (case py_setitem set_data ''name'' (JStr import_name) of
                  Inl x \<Rightarrow> Inl x
                | Inr set_data \<Rightarrow>
                    (case py_setitem set_data ''last_modified'' (JStr (now e)) of
                       Inl x \<Rightarrow> Inl x
                     | Inr set_data \<Rightarrow> Inr (d\<lparr>set_json := Some (Doc set_data)\<rparr>)))))"

text \<open>
  \<open>self.sets_path / import_name\<close>, as pathlib joins it: an empty name and \<open>.\<close> give the
  sets folder itself, \<open>..\<close> gives the vault folder, any other name a directory under
  the sets folder.
\<close>

datatype dest = SetsFolder | VaultFolder | Child string

definition join_sets_path :: "string \<Rightarrow> dest" where
  "join_sets_path nm =
     (if nm = [] \<or> nm = ''.'' then SetsFolder
      else if nm = ''..'' then VaultFolder
      else Child nm)"

text \<open>
  The directories under a set directory, for a set directory that was copied over the
  sets folder: its media folders, each listed when it holds a file (a missing media
  folder and an empty one are not told apart).
\<close>

definition subfolders :: "set_dir \<Rightarrow> (string, set_dir) fmap" where
  "subfolders d =
     (let with_images =
            (if fmdom (images d) = {||} then fmempty
             else fmupd ''images'' (empty_set_dir\<lparr>other_files := images d\<rparr>) fmempty)
      in if fmdom (sounds d) = {||} then with_images
         else fmupd ''sounds'' (empty_set_dir\<lparr>other_files := sounds d\<rparr>) with_images)"

text \<open>
  The \<open>try\<close> that imports one staged set under \<open>import_name\<close>. The original name is
  the name of a directory that \<open>iterdir\<close> listed, never \<open>.\<close> or \<open>..\<close>, so an import
  under the original name goes to a directory under the sets folder; any other name is
  joined as pathlib joins it.

  Under the sets folder: \<open>rmtree\<close> of the destination if it exists, \<open>copytree\<close>, and the
  rewriting of the name when the set is renamed; \<open>copytree\<close> makes the sets folder again
  if it is missing.

  At the sets folder itself (the name \<open>.\<close>): \<open>rmtree\<close> removes the sets folder with
  every set in it, and \<open>copytree\<close> puts the staged set in its place, so that the
  directories under the sets folder are now the media folders of the staged set.

  At the vault folder (the name \<open>..\<close>), as CPython does on a POSIX file system: when
  the sets folder exists, \<open>rmtree\<close> empties the vault folder, the sets folder included,
  and then raises because the path no longer resolves; when it is missing, \<open>copytree\<close>
  makes the sets folder and then raises because the destination exists.
\<close>

definition import_one ::
  "host \<Rightarrow> env \<Rightarrow> string \<Rightarrow> string \<Rightarrow> set_dir \<Rightarrow> merge_state \<Rightarrow> merge_state" where
  "import_one h e original_name import_name set_dir st =
     (case (if import_name = original_name then Child import_name
            else join_sets_path import_name) of
        Child dest_name \<Rightarrow>
          (case copy_fault h original_name import_name of
             Some r \<Rightarrow>
               (case r of
                  None \<Rightarrow>
                    st\<lparr>disk := fmdrop dest_name (disk st),
                       ignored := ignored st @ [original_name]\<rparr>
                | Some partial \<Rightarrow>
                    st\<lparr>disk := fmupd dest_name partial (disk st), sets_gone := False,
                       ignored := ignored st @ [original_name]\<rparr>)
           | None \<Rightarrow>
               (case (if import_name \<noteq> original_name
                      then rename_metadata e import_name set_dir
                      else Inr set_dir) of
                  Inl x \<Rightarrow>
                    st\<lparr>disk := fmupd dest_name set_dir (disk st), sets_gone := False,
                       ignored := ignored st @ [original_name]\<rparr>
                | Inr dest_dir \<Rightarrow>
                    st\<lparr>disk := fmupd dest_name dest_dir (disk st), sets_gone := False,
                       existing_sets := finsert import_name (existing_sets st),
                       imported := imported st @ [import_name]\<rparr>))
      | SetsFolder \<Rightarrow>
          (case copy_fault h original_name import_name of
             Some r \<Rightarrow>
               (case r of
                  None \<Rightarrow>
                    st\<lparr>disk := fmempty, sets_gone := True,
                       ignored := ignored st @ [original_name]\<rparr>
                | Some partial \<Rightarrow>
                    st\<lparr>disk := subfolders partial, sets_gone := False,
                       ignored := ignored st @ [original_name]\<rparr>)
           | None \<Rightarrow>
               (case rename_metadata e import_name set_dir of
                  Inl x \<Rightarrow>
                    st\<lparr>disk := subfolders set_dir, sets_gone := False,
                       ignored := ignored st @ [original_name]\<rparr>
                | Inr dest_dir \<Rightarrow>
                    st\<lparr>disk := subfolders dest_dir, sets_gone := False,
                       existing_sets := finsert import_name (existing_sets st),
                       imported := imported st @ [import_name]\<rparr>))
      | VaultFolder \<Rightarrow>
          st\<lparr>disk := fmempty, sets_gone := \<not> sets_gone st,
             ignored := ignored st @ [original_name]\<rparr>)"

text \<open>
  The checks of \<open>validate_set_name\<close> that come before it lists the sets folder: a name
  that passes them makes \<open>get_available_sets\<close> run, which raises IOError when the sets
  folder is missing.
\<close>

definition name_checks :: "string \<Rightarrow> bool" where
  "name_checks nm =
     (\<not> (nm = [] \<or> length (py_strip py_whitespace nm) = 0)
      \<and> \<not> length nm > 128
      \<and> \<not> list_ex (\<lambda>c. c \<in> set nm) invalid_chars)"

text \<open>
  One turn of the loop over the staged set directories. An exception outside the \<open>try\<close>
  of the import ends the loop: the turns after it do nothing.
\<close>

definition merge_step :: "host \<Rightarrow> env \<Rightarrow> merge_state \<Rightarrow> string \<times> set_dir \<Rightarrow> merge_state" where
  "merge_step h e st entry =
     (let original_name = fst entry; set_dir = snd entry in
      if raised st then st
      else if original_name |\<in>| existing_sets st then
        (if ignore_all st then st\<lparr>ignored := ignored st @ [original_name]\<rparr>
         else
           (case conflict_dialog h of
              Some dialog \<Rightarrow>
                (let suggested_name = auto_rename original_name (existing_sets st) 2 in
                 case dialog original_name suggested_name of
                   Ignore \<Rightarrow> st\<lparr>ignored := ignored st @ [original_name]\<rparr>
                 | IgnoreAll \<Rightarrow>
                     st\<lparr>ignore_all := True, ignored := ignored st @ [original_name]\<rparr>
                 | Import new_name \<Rightarrow>
                     if sets_gone st \<and> name_checks new_name then st\<lparr>raised := True\<rparr>
                     else if \<not> fst (validate_set_name new_name (disk st))
                     then st\<lparr>ignored := ignored st @ [original_name]\<rparr>
                     else import_one h e original_name new_name set_dir
                            (st\<lparr>renamed := renamed st @ [(original_name, new_name)]\<rparr>)
                 | Closed \<Rightarrow> import_one h e original_name original_name set_dir st)
            | None \<Rightarrow>
                (let import_name = auto_rename original_name (existing_sets st) 2 in
                 import_one h e original_name import_name set_dir
                   (st\<lparr>renamed := renamed st @ [(original_name, import_name)]\<rparr>))))
      else import_one h e original_name original_name set_dir st)"

definition merge_start :: "(string, set_dir) fmap \<Rightarrow> merge_state" where
  "merge_start sets =
     \<lparr>imported = [], ignored = [], renamed = [], disk = sets, sets_gone = False,
      existing_sets = fset_of_list (get_available_sets sets), ignore_all = False,
      raised = False\<rparr>"

definition merge_sets ::
  "host \<Rightarrow> env \<Rightarrow> (string \<times> set_dir) list \<Rightarrow> (string, set_dir) fmap \<Rightarrow> merge_state" where
  "merge_sets h e staged sets = foldl (merge_step h e) (merge_start sets) staged"

text \<open>The icon loop of the merge mode: the bundled icon set always takes the place.\<close>

definition merge_icon ::
  "(string, icon_dir) fmap \<Rightarrow> string \<times> icon_dir \<Rightarrow> (string, icon_dir) fmap" where
  "merge_icon icons entry = fmupd (fst entry) (snd entry) icons"

definition merge_icons ::
  "host \<Rightarrow> (string \<times> icon_dir) list option \<Rightarrow> icon_manager option \<Rightarrow> icon_manager option" where
  "merge_icons h icons_source im =
     (case im of
        None \<Rightarrow> None
      | Some m \<Rightarrow>
          (case icons_source of
             None \<Rightarrow> Some m
           | Some dirs \<Rightarrow>
               Some (refresh_available_icons (default_icon h)
                       (m\<lparr>icons_path := foldl merge_icon (icons_path m) dirs\<rparr>))))"

definition replace_icons ::
  "host \<Rightarrow> (string \<times> icon_dir) list option \<Rightarrow> icon_manager option \<Rightarrow> icon_manager option" where
  "replace_icons h icons_source im =
     (case im of
        None \<Rightarrow> None
      | Some m \<Rightarrow>
          (case icons_source of
             None \<Rightarrow> Some m
           | Some dirs \<Rightarrow>
               Some (refresh_available_icons (default_icon h)
                       (m\<lparr>icons_path := foldl merge_icon fmempty dirs\<rparr>))))"

text \<open>
  \<open>import_vault\<close>. The replace mode moves the vault directory to a backup beside it,
  which is outside the state of the model, and copies the imported sets into a new one.
  The merge mode returns its results before the cache is cleared; an exception that
  left its loop reaches \<open>except Exception\<close> and becomes IOError. Faults of the file
  system are modelled for the copy of one set in the merge mode, where the code
  handles them.
\<close>

definition import_vault ::
  "host \<Rightarrow> env \<Rightarrow> vault_archive zip_file \<Rightarrow> string \<Rightarrow> vault
     \<Rightarrow> (exn + import_results option) \<times> vault" where
  "import_vault h e vault_zip_path merge_mode v =
     (if merge_mode \<notin> set [''replace'', ''merge'', ''cancel''] then (Inl ValueError, v)
      else
        (case vault_zip_path of
           BadZip \<Rightarrow> (Inl ValueError, v)
         | Unopenable \<Rightarrow> (Inl IOError, v)
         | Zip a \<Rightarrow>
             if merge_mode = ''replace'' then
               (Inr None,
                v\<lparr>sets_path := (case imported_sets a of
                                   None \<Rightarrow> fmempty
                                 | Some dirs \<Rightarrow>
                                     foldl (\<lambda>sets entry. fmupd (fst entry) (snd entry) sets)
                                       fmempty dirs),
                  icon_manager := replace_icons h (imported_icons a) (icon_manager v),
                  sets_cache := fmempty\<rparr>)
             else if merge_mode = ''merge'' then
               (let v = v\<lparr>icon_manager := merge_icons h (imported_icons a) (icon_manager v)\<rparr>
                in case imported_sets a of
                     Some staged \<Rightarrow>
                       (let st = merge_sets h e staged (sets_path v)
                        in if raised st then (Inl IOError, v\<lparr>sets_path := disk st\<rparr>)
                           else (Inr (Some (import_results.truncate st)),
                                 v\<lparr>sets_path := disk st\<rparr>))
                   | None \<Rightarrow> (Inr None, v\<lparr>sets_cache := fmempty\<rparr>))
             else (Inr None, v\<lparr>sets_cache := fmempty\<rparr>)))"

subsection \<open>Storing a media file\<close>

text \<open>
  The source path of \<open>copy_media_file\<close>: its last component, and whether it is missing,
  there but not copyable (a directory, an unreadable file), or a file with its bytes.
\<close>

datatype src_state = Missing | Uncopyable | File bytes

record source_file =
  src_name :: string
  src_state :: src_state

fun copy_file :: "src_state \<Rightarrow> exn + bytes" where
  "copy_file (File b) = Inr b"
| "copy_file _ = Inl IOError"

definition copy_media_file ::
  "source_file \<Rightarrow> string \<Rightarrow> string \<Rightarrow> vault \<Rightarrow> (exn + string) \<times> vault" where
  "copy_media_file source set_name media_type v =
     (if media_type \<notin> set [''image'', ''audio'', ''video''] then (Inl ValueError, v)
      else if src_state source = Missing then (Inl FileNotFoundError, v)
      else
        (let set_path = (case fmlookup (sets_path v) set_name of
                           None \<Rightarrow> empty_set_dir
                         | Some d \<Rightarrow> d);
             dest_dir = (if media_type = ''image'' then images set_path else sounds set_path);
             safe_name = safe_filename (src_name source);
             dest_path = unique_dest dest_dir safe_name safe_name 1
         in case copy_file (src_state source) of
              Inl x \<Rightarrow> (Inl x, v\<lparr>sets_path := fmupd set_name set_path (sets_path v)\<rparr>)
            | Inr b \<Rightarrow>
                (Inr dest_path,
                 v\<lparr>sets_path :=
                      fmupd set_name
                        (if media_type = ''image''
                         then set_path\<lparr>images := fmupd dest_path b dest_dir\<rparr>
                         else set_path\<lparr>sounds := fmupd dest_path b dest_dir\<rparr>)
                        (sets_path v)\<rparr>)))"

section \<open>Concrete vaults and archives\<close>

definition one_card_set :: flash_card_set where
  "one_card_set =
     (FlashCardSet \<lparr>now = ''t0'', uuid4 = ''u0''\<rparr> (JStr ''S'') (JStr ''''))
       \<lparr>cards := [FlashCard \<lparr>now = ''t0'', uuid4 = ''u0''\<rparr> (JStr ''c1'')]\<rparr>"

definition empty_vault :: vault where
  "empty_vault = \<lparr>sets_path = fmempty, sets_cache = fmempty, icon_manager = None\<rparr>"

definition broken_vault :: vault where
  "broken_vault =
     \<lparr>sets_path = fmupd ''bad'' (empty_set_dir\<lparr>set_json := Some Malformed\<rparr>) fmempty,
      sets_cache = fmempty, icon_manager = None\<rparr>"

definition host0 :: host where
  "host0 = \<lparr>conflict_dialog = None, copy_fault = (\<lambda>original dest. None),
            default_icon = (\<lambda>sz. ''default icon'')\<rparr>"

definition no_metadata_archive :: "set_archive zip_file" where
  "no_metadata_archive = Zip \<lparr>set_json_dirs = [], archive_icons = None\<rparr>"

definition set_S_archive :: "set_archive zip_file" where
  "set_S_archive =
     Zip \<lparr>set_json_dirs =
            [empty_set_dir\<lparr>set_json := Some (Doc (to_dict one_card_set)),
                           cards_json := Some (Doc (cards_to_dict one_card_set))\<rparr>],
          archive_icons = None\<rparr>"

definition vault_with_S :: vault where
  "vault_with_S = snd (save_set one_card_set empty_vault)"

text \<open>An icon set with all five sizes, every file holding the same bytes.\<close>

definition full_icon_set :: "bytes \<Rightarrow> icon_dir" where
  "full_icon_set b = foldl (\<lambda>d sz. fmupd (icon_file sz) b d) fmempty icon_sizes"

definition vault_with_icons :: vault where
  "vault_with_icons =
     \<lparr>sets_path = fmempty, sets_cache = fmempty,
      icon_manager =
        Some \<lparr>icons_path = fmupd ''math'' (full_icon_set ''old'')
                             (fmupd ''default'' (full_icon_set ''default icon'') fmempty),
              available_icon_sets = {|''math'', ''default''|}\<rparr>\<rparr>"

definition math_icons_archive :: "vault_archive zip_file" where
  "math_icons_archive =
     Zip \<lparr>imported_sets = None,
          imported_icons = Some [(''math'', full_icon_set ''new'')]\<rparr>"

definition vault_with_media :: vault where
  "vault_with_media =
     \<lparr>sets_path =
        fmupd ''S'' (empty_set_dir\<lparr>set_json := Some (Doc (to_dict one_card_set)),
                      images := fmupd ''a.png'' ''first'' (fmupd ''a_1.png'' ''second'' fmempty)\<rparr>)
          fmempty,
      sets_cache = fmempty, icon_manager = None\<rparr>"

text \<open>
  A set of the vault is untouched by a merge, so far, when its directory is as it was,
  its name is still taken, nothing was imported under its name and it was not renamed.
\<close>

definition untouched :: "(string, set_dir) fmap \<Rightarrow> string \<Rightarrow> merge_state \<Rightarrow> bool" where
  "untouched sets n st =
     (fmlookup (disk st) n = fmlookup sets n \<and> n |\<in>| existing_sets st
      \<and> n \<notin> set (imported st) \<and> n \<notin> fst ` set (renamed st))"

definition S_dir :: set_dir where
  "S_dir = empty_set_dir\<lparr>set_json := Some (Doc (to_dict one_card_set)),
                           cards_json := Some (Doc (cards_to_dict one_card_set))\<rparr>"

definition S_vault_archive :: "vault_archive zip_file" where
  "S_vault_archive = Zip \<lparr>imported_sets = Some [(''S'', S_dir)], imported_icons = None\<rparr>"

text \<open>
  A vault with the sets \<open>A\<close> and \<open>S\<close>, a vault archive with sets of the same names, and
  a conflict dialog that imports \<open>A\<close> under a given new name and ignores every other set.
\<close>

definition named_dir :: "string \<Rightarrow> set_dir" where
  "named_dir n = empty_set_dir\<lparr>set_json := Some (Doc (JObj [(''name'', JStr n)]))\<rparr>"

definition vault_AS :: vault where
  "vault_AS =
     \<lparr>sets_path = fmupd ''A'' (named_dir ''A'') (fmupd ''S'' (named_dir ''S'') fmempty),
      sets_cache = fmempty, icon_manager = None\<rparr>"

definition AS_archive :: "vault_archive zip_file" where
  "AS_archive =
     Zip \<lparr>imported_sets = Some [(''A'', named_dir ''A''), (''S'', named_dir ''S'')],
          imported_icons = None\<rparr>"

definition renaming_host :: "string \<Rightarrow> host" where
  "renaming_host new_name =
     host0\<lparr>conflict_dialog :=
             Some (\<lambda>conflict suggested. if conflict = ''A'' then Import new_name else Ignore)\<rparr>"
section \<open>Reordering cards\<close>

lemma move_in_list_mset:
  assumes "move_in_list i j xs = Inr ys"
  shows "mset ys = mset xs"
proof -
  from assms have r: "in_range i xs" "in_range j xs"
    and ys: "ys = insert_at (nat j) (xs ! nat i) (del_at (nat i) xs)"
    by (auto simp: move_in_list_def Let_def split: if_splits)
  from r have i: "nat i < length xs" by (simp add: in_range_def nat_less_iff)
  have "mset (del_at (nat i) xs) + {#xs ! nat i#} = mset xs"
  proof -
    have "xs = take (nat i) xs @ xs ! nat i # drop (Suc (nat i)) xs"
      using i by (simp add: id_take_nth_drop)
    then have "mset xs = mset (take (nat i) xs @ xs ! nat i # drop (Suc (nat i)) xs)"
      by simp
    then show ?thesis by (simp add: del_at_def)
  qed
  moreover have "mset (insert_at k x zs) = mset zs + {#x#}" for k x and zs :: "'a list"
  proof -
    have "mset (take k zs) + mset (drop k zs) = mset zs"
      by (metis append_take_drop_id mset_append)
    then show ?thesis by (simp add: insert_at_def)
  qed
  ultimately show ?thesis using ys by simp
qed

lemma move_in_list_length:
  assumes "move_in_list i j xs = Inr ys"
  shows "length ys = length xs"
  using move_in_list_mset [OF assms] by (metis size_mset)

lemma move_in_list_nth:
  assumes "move_in_list i j xs = Inr ys"
  shows "ys ! nat j = xs ! nat i"
proof -
  from assms have r: "in_range i xs" "in_range j xs"
    and ys: "ys = insert_at (nat j) (xs ! nat i) (del_at (nat i) xs)"
    by (auto simp: move_in_list_def Let_def split: if_splits)
  from r have "nat i < length xs" "nat j < length xs"
    by (simp_all add: in_range_def nat_less_iff)
  then have "length (take (nat j) (del_at (nat i) xs)) = nat j"
    by (simp add: del_at_def)
  then show ?thesis
    unfolding ys insert_at_def by (metis nth_append_length)
qed

lemma move_in_list_ok:
  "in_range i xs \<Longrightarrow> in_range j xs \<Longrightarrow> \<exists>ys. move_in_list i j xs = Inr ys"
  by (simp add: move_in_list_def Let_def)

lemma move_in_list_error:
  "\<not> (in_range i xs \<and> in_range j xs) \<Longrightarrow> move_in_list i j xs = Inl IndexError"
  by (simp add: move_in_list_def)

text \<open>
  Claim C10. For indices within \<open>0..card_count-1\<close>, \<open>move_card\<close> returns a set whose cards
  are a permutation of the old ones (same multiset of cards, hence of card identifiers,
  same count, nothing but \<open>cards\<close> changed) with the card formerly at \<open>from_index\<close> now at
  \<open>to_index\<close>; for any other index it raises IndexError, and the set is not changed
  because no new set is produced.
\<close>

theorem move_card_permutes:
  "(0 \<le> from_index \<and> from_index < card_count s \<and> 0 \<le> to_index \<and> to_index < card_count s
     \<longrightarrow> (\<exists>s'. move_card from_index to_index s = Inr s'
            \<and> mset (cards s') = mset (cards s)
            \<and> mset (map card_id (cards s')) = mset (map card_id (cards s))
            \<and> card_count s' = card_count s
            \<and> cards s' ! nat to_index = cards s ! nat from_index
            \<and> s' = s\<lparr>cards := cards s'\<rparr>))
   \<and> (\<not> (0 \<le> from_index \<and> from_index < card_count s \<and> 0 \<le> to_index \<and> to_index < card_count s)
     \<longrightarrow> move_card from_index to_index s = Inl IndexError)"
proof (cases "in_range from_index (cards s) \<and> in_range to_index (cards s)")
  case True
  then obtain ys where ys: "move_in_list from_index to_index (cards s) = Inr ys"
    using move_in_list_ok by blast
  have "mset ys = mset (cards s)" by (rule move_in_list_mset [OF ys])
  moreover from this have "mset (map card_id ys) = mset (map card_id (cards s))"
    by (metis mset_map)
  moreover have "length ys = length (cards s)" by (rule move_in_list_length [OF ys])
  moreover have "ys ! nat to_index = cards s ! nat from_index"
    by (rule move_in_list_nth [OF ys])
  ultimately show ?thesis
    using True ys by (simp add: move_card_def card_count_def in_range_def)
next
  case False
  then have "move_in_list from_index to_index (cards s) = Inl IndexError"
    by (rule move_in_list_error)
  then show ?thesis
    using False by (auto simp: move_card_def card_count_def in_range_def)
qed

theorem move_card_permutes_witness:
  "(\<exists>s'. move_card 0 2 three_card_set = Inr s'
         \<and> map card_id (cards s') = [JStr ''b'', JStr ''c'', JStr ''a'']
         \<and> mset (cards s') = mset (cards three_card_set))
   \<and> move_card 3 0 three_card_set = Inl IndexError"
  using move_card_permutes [of 0 three_card_set 2] move_card_permutes [of 3 three_card_set 0]
  by (simp add: move_card_def move_in_list_def in_range_def insert_at_def del_at_def
      three_card_set_def FlashCardSet_def FlashCard_def card_count_def)

section \<open>The cap of ten blocks per side\<close>

lemma capped_FlashCard: "capped (FlashCard e cid)"
  by (simp add: capped_def FlashCard_def)

lemma capped_add_block_to_side:
  "capped c \<Longrightarrow> add_block_to_side side b c = Inr c' \<Longrightarrow> capped c'"
  by (auto simp: capped_def add_block_to_side_def split: if_splits)

lemma add_block_to_side_full:
  "length (information_side c) = 10 \<Longrightarrow> add_block_to_side ''information'' b c = Inl ValueError"
  "length (answer_side c) = 10 \<Longrightarrow> add_block_to_side ''answer'' b c = Inl ValueError"
  by (simp_all add: add_block_to_side_def)

lemma capped_remove_block_from_side:
  "capped c \<Longrightarrow> remove_block_from_side side i c = Inr c' \<Longrightarrow> capped c'"
  by (auto simp: capped_def remove_block_from_side_def del_at_def split: if_splits)

lemma capped_move_block:
  "capped c \<Longrightarrow> move_block side i j c = Inr c' \<Longrightarrow> capped c'"
  by (auto simp: capped_def move_block_def split: if_splits sum.splits
      dest: move_in_list_length)

text \<open>
  Claim C9 says that every card built by \<open>from_dict\<close> has at most ten blocks on each side.
  \<open>FlashCard.from_dict\<close> appends every block of the document to the side directly, without
  the check that \<open>add_block_to_side\<close> makes: a card document that lists eleven text blocks
  on its information side is deserialized into a card with eleven blocks there.
\<close>

theorem from_dict_exceeds_cap:
  "(case FlashCard_from_dict \<lparr>now = ''t'', uuid4 = ''u''\<rparr> eleven_block_card of
      Inl x \<Rightarrow> False
    | Inr c \<Rightarrow> length (information_side c) = 11 \<and> \<not> capped c)"
  by (simp add: eleven_block_card_def eval_nat_numeral dget_def FlashCard_def capped_def)


section \<open>Sanitized file names\<close>



















text \<open>
  Two inputs on which the code misses what it sets out to do, and which the statement
  above says nothing about. The comment of the code announces that white space is
  removed from both ends, but \<open>strip(' .')\<close> trims the space only, so a leading tab
  stays. With an extension of more than 255 characters the slice index
  \<open>255 - len(ext)\<close> is negative, the stem is cut from its end, and the result is longer
  than 255 characters.
\<close>

lemma safe_filename_tab: "safe_filename [CHR 0x09, CHR ''x''] = [CHR 0x09, CHR ''x'']"
  by code_simp

lemma safe_filename_long_extension:
  "length (safe_filename (''a.'' @ replicate 300 (CHR ''b''))) = 301"
  by code_simp

section \<open>Loading and saving a set\<close>

text \<open>
  Claim C8. Whenever \<open>load_set\<close> raises (FileNotFoundError for a set that is not there,
  ValueError for malformed JSON, IOError for any other failure), the vault it leaves is
  the vault it found: the cache is exactly as before, with no entry for the requested
  name inserted.
\<close>

theorem load_set_failure_keeps_cache:
  "fst (load_set e set_name v) = Inl x \<Longrightarrow>
     snd (load_set e set_name v) = v
     \<and> sets_cache (snd (load_set e set_name v)) = sets_cache v"
  by (auto simp: load_set_def split: option.splits sum.splits exn.splits)

theorem load_set_failure_keeps_cache_witness:
  "fst (load_set \<lparr>now = ''t1'', uuid4 = ''u1''\<rparr> ''bad'' broken_vault) = Inl ValueError
   \<and> fst (load_set \<lparr>now = ''t1'', uuid4 = ''u1''\<rparr> ''none'' broken_vault) = Inl FileNotFoundError
   \<and> sets_cache (snd (load_set \<lparr>now = ''t1'', uuid4 = ''u1''\<rparr> ''bad'' broken_vault)) = fmempty"
  using load_set_failure_keeps_cache
    [of "\<lparr>now = ''t1'', uuid4 = ''u1''\<rparr>" "''bad''" broken_vault ValueError]
  by (simp add: load_set_def broken_vault_def set_file_def cards_file_def load_set_body_def
      empty_set_dir_def)

lemma create_block_roundtrip: "create_block_from_dict e (block_to_dict b) = Inr b"
  by (cases b)
    (simp_all add: dget_def TextBlock_from_dict_def ImageBlock_from_dict_def
      AudioBlock_from_dict_def VideoBlock_from_dict_def)

lemma map_exn_roundtrip:
  "(\<And>x. x \<in> set xs \<Longrightarrow> f (g x) = Inr x) \<Longrightarrow> map_exn f (map g xs) = Inr xs"
  by (induction xs) simp_all

lemma card_roundtrip:
  "truthy (card_id c) \<Longrightarrow> FlashCard_from_dict e (card_to_dict c) = Inr c"
  by (simp add: card_to_dict_def dget_def FlashCard_def map_exn_roundtrip create_block_roundtrip)

lemma load_cards_roundtrip:
  "(\<And>c. c \<in> set (cards s) \<Longrightarrow> truthy (card_id c))
   \<Longrightarrow> load_cards e (Some (cards_to_dict s)) = Inr (cards s)"
  by (simp add: load_cards_def cards_to_dict_def map_exn_roundtrip card_roundtrip)

lemma from_dict_roundtrip:
  "(\<And>c. c \<in> set (cards s) \<Longrightarrow> truthy (card_id c))
   \<Longrightarrow> from_dict e (to_dict s) (Some (cards_to_dict s)) = Inr s"
  by (simp add: from_dict_def to_dict_def dget_def FlashCardSet_def load_cards_roundtrip)

text \<open>
  Claim C3 as stated fails on \<open>last_accessed\<close>: \<open>load_set\<close> calls
  \<open>update_last_accessed\<close> on the set it has read, so a set saved with no access time
  comes back with the time of the load.
\<close>

theorem save_load_counterexample:
  "map_sum id last_accessed
     (fst (load_set \<lparr>now = ''t1'', uuid4 = ''u1''\<rparr> ''S''
        (clear_cache (snd (save_set one_card_set empty_vault))))) = Inr (JStr ''t1'')
   \<and> last_accessed one_card_set = JNull"
  by (simp add: load_set_def save_set_def clear_cache_def set_file_def cards_file_def
      load_set_body_def update_last_accessed_def Let_def one_card_set_def empty_vault_def
      FlashCardSet_def FlashCard_def empty_set_dir_def from_dict_def to_dict_def
      cards_to_dict_def card_to_dict_def load_cards_def dget_def)

text \<open>
  Claim C3, as the code has it. For every set \<open>s\<close> whose name is a string and whose
  cards have non-empty identifiers (as the constructor of a card guarantees), saving
  \<open>s\<close> and loading it by its name with the cache cleared yields \<open>s\<close> with
  \<open>last_accessed\<close> set to the time of the load: name, description, icon set, tags,
  difficulty level and creation date are those of \<open>s\<close>, and the cards are the same
  in number and content.
\<close>

theorem save_load_roundtrip:
  assumes "name s = JStr n" and "\<forall>c \<in> set (cards s). truthy (card_id c)"
  shows "fst (load_set e n (clear_cache (snd (save_set s v))))
       = Inr (s\<lparr>last_accessed := JStr (now e)\<rparr>)"
proof -
  have "from_dict e (to_dict s) (Some (cards_to_dict s)) = Inr s"
    using assms(2) by (simp add: from_dict_roundtrip)
  then show ?thesis
    using assms(1)
    by (simp add: load_set_def save_set_def clear_cache_def set_file_def cards_file_def
        load_set_body_def update_last_accessed_def Let_def)
qed

theorem save_load_roundtrip_witness:
  "fst (load_set \<lparr>now = ''t1'', uuid4 = ''u1''\<rparr> ''S''
          (clear_cache (snd (save_set one_card_set empty_vault))))
     = Inr (one_card_set\<lparr>last_accessed := JStr ''t1''\<rparr>)
   \<and> name one_card_set = JStr ''S''
   \<and> map card_id (cards one_card_set) = [JStr ''c1'']"
  using save_load_roundtrip
    [of one_card_set "''S''" "\<lparr>now = ''t1'', uuid4 = ''u1''\<rparr>" empty_vault]
  by (simp add: one_card_set_def FlashCardSet_def FlashCard_def)

section \<open>Importing one set\<close>

lemma available_iff:
  "n \<in> set (get_available_sets sets) \<longleftrightarrow> set_file sets n \<noteq> None"
  by (auto simp: get_available_sets_def set_file_def split: option.splits intro: fmdomI)

text \<open>
  Claim C2 says that \<open>import_set\<close> raises ValueError for an archive without
  \<open>set.json\<close> and for a name that is already taken, and keeps IOError for copy
  failures. The body does raise ValueError in both cases, but inside the \<open>try\<close> whose
  \<open>except Exception\<close> turns it into IOError: the caller sees IOError for an archive
  without metadata, for a chosen name that exists and for an original name that exists.
  A chosen name with an illegal character is not checked at all and is imported.
\<close>

theorem import_set_wraps_value_errors:
  "import_set_body host0 no_metadata_archive None empty_vault = Inl ValueError
   \<and> fst (import_set host0 no_metadata_archive None empty_vault) = Inl IOError
   \<and> import_set_body host0 set_S_archive (Some ''S'') vault_with_S = Inl ValueError
   \<and> fst (import_set host0 set_S_archive (Some ''S'') vault_with_S) = Inl IOError
   \<and> fst (import_set host0 set_S_archive None vault_with_S) = Inl IOError
   \<and> fst (import_set host0 set_S_archive (Some ''bad:name'') vault_with_S) = Inr ''bad:name''"
  by (simp add: import_set_def import_set_body_def no_metadata_archive_def set_S_archive_def
      vault_with_S_def save_set_def one_card_set_def FlashCardSet_def empty_vault_def
      empty_set_dir_def to_dict_def available_iff set_file_def Let_def import_set_icons_def)

section \<open>Icon sets in a vault import\<close>

lemma full_icon_set_valid: "validate_icon_set (Some (full_icon_set b))"
  by (simp add: validate_icon_set_def full_icon_set_def icon_sizes_def)

lemma foldl_merge_icon_other:
  "n \<notin> fst ` set dirs \<Longrightarrow> fmlookup (foldl merge_icon icons dirs) n = fmlookup icons n"
  by (induction dirs arbitrary: icons) (auto simp: merge_icon_def)

lemma foldl_merge_icon_entry:
  "distinct (map fst dirs) \<Longrightarrow> (n, d) \<in> set dirs
   \<Longrightarrow> fmlookup (foldl merge_icon icons dirs) n = Some d"
proof (induction dirs arbitrary: icons)
  case Nil
  then show ?case by simp
next
  case (Cons x xs)
  show ?case
  proof (cases "x = (n, d)")
    case True
    with Cons.prems have "n \<notin> fst ` set xs" by auto
    then have "fmlookup (foldl merge_icon (merge_icon icons x) xs) n
        = fmlookup (merge_icon icons x) n"
      by (rule foldl_merge_icon_other)
    also have "\<dots> = Some d" using True by (simp add: merge_icon_def)
    finally show ?thesis by simp
  next
    case False
    with Cons show ?thesis by auto
  qed
qed

lemma refresh_keeps:
  assumes "n \<noteq> ''default'' \<or> validate_icon_set (fmlookup (icons_path m) n)"
  shows "fmlookup (icons_path (refresh_available_icons render m)) n = fmlookup (icons_path m) n"
proof (cases "n = ''default''")
  case True
  with assms have v: "validate_icon_set (fmlookup (icons_path m) ''default'')" by simp
  then have "fmlookup (icons_path m) ''default'' \<noteq> None"
    by (auto simp: validate_icon_set_def split: option.splits)
  then have "''default'' |\<in>| fmdom (icons_path m)" by (auto intro: fmdomI)
  with v True show ?thesis by (simp add: refresh_available_icons_def Let_def)
next
  case False
  then show ?thesis
    by (simp add: refresh_available_icons_def Let_def install_default_icon_collection_def)
qed

lemma full_icon_set_diff: "b \<noteq> b' \<Longrightarrow> full_icon_set b \<noteq> full_icon_set b'"
proof
  assume ne: "b \<noteq> b'" and eq: "full_icon_set b = full_icon_set b'"
  have "fmlookup (full_icon_set b) (icon_file 16) = Some b"
    by (simp add: full_icon_set_def icon_sizes_def)
  moreover have "fmlookup (full_icon_set b') (icon_file 16) = Some b'"
    by (simp add: full_icon_set_def icon_sizes_def)
  ultimately show False using ne eq by simp
qed

lemma merge_math_icons:
  "icon_manager (snd (import_vault host0 e math_icons_archive ''merge'' vault_with_icons))
   = Some (refresh_available_icons (default_icon host0)
       \<lparr>icons_path = fmupd ''math'' (full_icon_set ''new'')
                       (fmupd ''math'' (full_icon_set ''old'')
                          (fmupd ''default'' (full_icon_set ''default icon'') fmempty)),
        available_icon_sets = {|''math'', ''default''|}\<rparr>)"
  by (simp add: import_vault_def math_icons_archive_def vault_with_icons_def merge_icons_def
      merge_icon_def)

text \<open>
  Claim C1 as stated fails: in the merge mode of \<open>import_vault\<close> the icon loop removes
  an icon set that is already there and copies the bundled one, without calling
  \<open>validate_icon_set\<close> (the check is made by \<open>import_set\<close> only). Here the vault has
  a complete icon set \<open>math\<close>, and after the import the bundled \<open>math\<close> has taken its
  place.
\<close>

theorem merge_icons_counterexample:
  "validate_icon_set (Some (full_icon_set ''old''))
   \<and> map_option (\<lambda>m. fmlookup (icons_path m) ''math'') (icon_manager vault_with_icons)
       = Some (Some (full_icon_set ''old''))
   \<and> map_option (\<lambda>m. fmlookup (icons_path m) ''math'')
        (icon_manager (snd (import_vault host0 \<lparr>now = ''t1'', uuid4 = ''u1''\<rparr>
           math_icons_archive ''merge'' vault_with_icons)))
       = Some (Some (full_icon_set ''new''))
   \<and> full_icon_set ''new'' \<noteq> full_icon_set ''old''"
proof -
  have after: "map_option (\<lambda>m. fmlookup (icons_path m) ''math'')
        (icon_manager (snd (import_vault host0 \<lparr>now = ''t1'', uuid4 = ''u1''\<rparr>
           math_icons_archive ''merge'' vault_with_icons)))
       = Some (Some (full_icon_set ''new''))"
    by (simp add: merge_math_icons refresh_keeps)
  have before: "map_option (\<lambda>m. fmlookup (icons_path m) ''math'')
        (icon_manager vault_with_icons) = Some (Some (full_icon_set ''old''))"
    by (simp add: vault_with_icons_def)
  show ?thesis
    using after before by (simp add: full_icon_set_valid full_icon_set_diff)
qed

text \<open>
  Claim C1, as the code has it. In a merge-mode vault import with an icon manager, every
  bundled icon set takes the place of the icon set of the same name, whether or not the
  one that was there validates. (For the name \<open>default\<close> this holds when the bundled
  set validates; otherwise the refresh that follows fills in its missing sizes.)
\<close>

theorem merge_overwrites_icons:
  assumes "icon_manager v = Some m"
      and "imported_icons a = Some dirs"
      and "distinct (map fst dirs)"
      and "(n, d) \<in> set dirs"
      and "n \<noteq> ''default'' \<or> validate_icon_set (Some d)"
  shows "\<exists>m'. icon_manager (snd (import_vault h e (Zip a) ''merge'' v)) = Some m'
            \<and> fmlookup (icons_path m') n = Some d"
proof -
  let ?m1 = "m\<lparr>icons_path := foldl merge_icon (icons_path m) dirs\<rparr>"
  have l: "fmlookup (icons_path ?m1) n = Some d"
    using assms(3,4) by (simp add: foldl_merge_icon_entry)
  then have "fmlookup (icons_path (refresh_available_icons (default_icon h) ?m1)) n = Some d"
    using assms(5) refresh_keeps [of n ?m1 "default_icon h"] by auto
  moreover have "icon_manager (snd (import_vault h e (Zip a) ''merge'' v))
      = Some (refresh_available_icons (default_icon h) ?m1)"
    using assms(1,2)
    by (simp add: import_vault_def merge_icons_def Let_def split: option.splits)
  ultimately show ?thesis by simp
qed

theorem merge_overwrites_icons_witness:
  "\<exists>m'. icon_manager (snd (import_vault host0 \<lparr>now = ''t1'', uuid4 = ''u1''\<rparr>
            (Zip \<lparr>imported_sets = None,
                  imported_icons = Some [(''math'', full_icon_set ''new'')]\<rparr>)
            ''merge'' vault_with_icons)) = Some m'
        \<and> fmlookup (icons_path m') ''math'' = Some (full_icon_set ''new'')"
  by (rule merge_overwrites_icons [where dirs = "[(''math'', full_icon_set ''new'')]"])
     (simp_all add: vault_with_icons_def)

section \<open>Storing a media file\<close>

lemma unique_dest_free: "unique_dest D s p c |\<notin>| fmdom D"
proof (induction D s p c rule: unique_dest.induct)
  case (1 D s p c)
  then show ?case by (subst unique_dest.simps) simp
qed

lemma unique_dest_first: "p |\<notin>| fmdom D \<Longrightarrow> unique_dest D s p c = p"
  by (subst unique_dest.simps) simp

lemma unique_dest_numbered:
  "p |\<in>| fmdom D \<Longrightarrow>
   \<exists>k\<ge>c. unique_dest D s p c = numbered s k \<and> (\<forall>j. c \<le> j \<and> j < k \<longrightarrow> numbered s j |\<in>| fmdom D)"
proof (induction D s p c rule: unique_dest.induct)
  case (1 D s p c)
  have step: "unique_dest D s p c = unique_dest D s (numbered s c) (Suc c)"
    using "1.prems" by (subst unique_dest.simps) simp
  show ?case
  proof (cases "numbered s c |\<in>| fmdom D")
    case False
    then have "unique_dest D s (numbered s c) (Suc c) = numbered s c"
      by (rule unique_dest_first)
    with step show ?thesis by auto
  next
    case True
    from "1.IH" [OF "1.prems"] True
    obtain k where k: "Suc c \<le> k" "unique_dest D s (numbered s c) (Suc c) = numbered s k"
      "\<forall>j. Suc c \<le> j \<and> j < k \<longrightarrow> numbered s j |\<in>| fmdom D"
      by auto
    have "\<forall>j. c \<le> j \<and> j < k \<longrightarrow> numbered s j |\<in>| fmdom D"
    proof (intro allI impI)
      fix j assume "c \<le> j \<and> j < k"
      then show "numbered s j |\<in>| fmdom D"
        using True k(3) by (cases "j = c") auto
    qed
    with k step show ?thesis by (intro exI [of _ k]) auto
  qed
qed

text \<open>
  Claim C6. For an existing source file and an existing set, \<open>copy_media_file\<close> stores
  the bytes of the file in the \<open>images\<close> folder of the set (media type image) or in its
  \<open>sounds\<close> folder (audio, video) and returns the name it stored them under. That name
  is the sanitized base name when it is free; otherwise it is \<open>stem_k.suffix\<close> for the
  lowest \<open>k \<ge> 1\<close> that is free. The name was not in the folder before, so every file
  that was there is still there with the same bytes, and nothing else in the vault
  changes.
\<close>

theorem copy_media_file_spec:
  assumes "src_state source = File b"
      and "fmlookup (sets_path v) set_name = Some d"
      and "media_type \<in> {''image'', ''audio'', ''video''}"
  shows "let dest_dir = (if media_type = ''image'' then images d else sounds d);
             safe_name = safe_filename (src_name source)
         in \<exists>stored.
              copy_media_file source set_name media_type v
                = (Inr stored,
                   v\<lparr>sets_path :=
                        fmupd set_name
                          (if media_type = ''image''
                           then d\<lparr>images := fmupd stored b (images d)\<rparr>
                           else d\<lparr>sounds := fmupd stored b (sounds d)\<rparr>)
                          (sets_path v)\<rparr>)
            \<and> stored |\<notin>| fmdom dest_dir
            \<and> (\<forall>f. f |\<in>| fmdom dest_dir \<longrightarrow>
                   fmlookup (fmupd stored b dest_dir) f = fmlookup dest_dir f)
            \<and> (if safe_name |\<notin>| fmdom dest_dir then stored = safe_name
               else \<exists>k\<ge>1. stored = numbered safe_name k
                      \<and> (\<forall>j. 1 \<le> j \<and> j < k \<longrightarrow> numbered safe_name j |\<in>| fmdom dest_dir))"
proof -
  define dest_dir where "dest_dir = (if media_type = ''image'' then images d else sounds d)"
  define safe_name where "safe_name = safe_filename (src_name source)"
  define stored where "stored = unique_dest dest_dir safe_name safe_name 1"
  have run: "copy_media_file source set_name media_type v
      = (Inr stored,
         v\<lparr>sets_path :=
              fmupd set_name
                (if media_type = ''image''
                 then d\<lparr>images := fmupd stored b (images d)\<rparr>
                 else d\<lparr>sounds := fmupd stored b (sounds d)\<rparr>)
                (sets_path v)\<rparr>)"
    using assms
    by (auto simp: copy_media_file_def Let_def stored_def dest_dir_def safe_name_def)
  have free: "stored |\<notin>| fmdom dest_dir"
    unfolding stored_def by (rule unique_dest_free)
  have frame: "\<forall>f. f |\<in>| fmdom dest_dir \<longrightarrow>
      fmlookup (fmupd stored b dest_dir) f = fmlookup dest_dir f"
    using free by auto
  have shape: "if safe_name |\<notin>| fmdom dest_dir then stored = safe_name
      else \<exists>k\<ge>1. stored = numbered safe_name k
             \<and> (\<forall>j. 1 \<le> j \<and> j < k \<longrightarrow> numbered safe_name j |\<in>| fmdom dest_dir)"
    using unique_dest_first [of safe_name dest_dir safe_name 1]
      unique_dest_numbered [of safe_name dest_dir 1 safe_name]
    by (auto simp: stored_def)
  show ?thesis
    unfolding Let_def dest_dir_def [symmetric] safe_name_def [symmetric]
    using run free frame shape by blast
qed

theorem copy_media_file_spec_witness:
  "fst (copy_media_file \<lparr>src_name = ''a.png'', src_state = File ''third''\<rparr> ''S'' ''image''
          vault_with_media) = Inr ''a_2.png''
   \<and> map_option images (fmlookup (sets_path (snd (copy_media_file
          \<lparr>src_name = ''a.png'', src_state = File ''third''\<rparr> ''S'' ''image'' vault_with_media))) ''S'')
       = Some (fmupd ''a_2.png'' ''third''
                (fmupd ''a.png'' ''first'' (fmupd ''a_1.png'' ''second'' fmempty)))"
proof -
  have name: "fst (copy_media_file \<lparr>src_name = ''a.png'', src_state = File ''third''\<rparr> ''S''
      ''image'' vault_with_media) = Inr ''a_2.png''"
    by code_simp
  have "fmlookup (sets_path vault_with_media) ''S''
      = Some (empty_set_dir\<lparr>set_json := Some (Doc (to_dict one_card_set)),
          images := fmupd ''a.png'' ''first'' (fmupd ''a_1.png'' ''second'' fmempty)\<rparr>)"
    by (simp add: vault_with_media_def)
  from copy_media_file_spec [of "\<lparr>src_name = ''a.png'', src_state = File ''third''\<rparr>"
      "''third''" vault_with_media "''S''" _ "''image''", OF _ this] name
  show ?thesis by (auto simp: Let_def)
qed

section \<open>The merge loop of a vault import\<close>

lemma auto_rename_spec:
  "\<exists>k\<ge>c. auto_rename n E c = n @ '' '' @ py_str k
        \<and> n @ '' '' @ py_str k |\<notin>| E
        \<and> (\<forall>j. c \<le> j \<and> j < k \<longrightarrow> n @ '' '' @ py_str j |\<in>| E)"
proof (induction n E c rule: auto_rename.induct)
  case (1 n E c)
  show ?case
  proof (cases "n @ '' '' @ py_str c |\<in>| E")
    case False
    then have "auto_rename n E c = n @ '' '' @ py_str c"
      by (subst auto_rename.simps) simp
    with False show ?thesis by (intro exI [of _ c]) auto
  next
    case True
    then have step: "auto_rename n E c = auto_rename n E (Suc c)"
      by (subst auto_rename.simps) simp
    from "1.IH" [OF True] obtain k where k: "Suc c \<le> k"
      "auto_rename n E (Suc c) = n @ '' '' @ py_str k"
      "n @ '' '' @ py_str k |\<notin>| E"
      "\<forall>j. Suc c \<le> j \<and> j < k \<longrightarrow> n @ '' '' @ py_str j |\<in>| E"
      by blast
    have "\<forall>j. c \<le> j \<and> j < k \<longrightarrow> n @ '' '' @ py_str j |\<in>| E"
    proof (intro allI impI)
      fix j assume "c \<le> j \<and> j < k"
      then show "n @ '' '' @ py_str j |\<in>| E"
        using True k(4) by (cases "j = c") auto
    qed
    with k step show ?thesis by (intro exI [of _ k]) auto
  qed
qed

lemma auto_rename_free: "auto_rename n E c |\<notin>| E"
  using auto_rename_spec [of c n E] by auto

text \<open>A numbered name holds a space, so it names a directory under the sets folder.\<close>

lemma auto_rename_child: "join_sets_path (auto_rename n E c) = Child (auto_rename n E c)"
proof -
  obtain k where "auto_rename n E c = n @ '' '' @ py_str k"
    using auto_rename_spec [of c n E] by blast
  then have "CHR '' '' \<in> set (auto_rename n E c)" by simp
  then have "auto_rename n E c \<noteq> [] \<and> auto_rename n E c \<noteq> ''.'' \<and> auto_rename n E c \<noteq> ''..''"
    by auto
  then show ?thesis by (simp add: join_sets_path_def)
qed

lemma validate_set_name_free:
  "fst (validate_set_name nm sets) \<Longrightarrow> nm \<notin> set (get_available_sets sets)"
  by (auto simp: validate_set_name_def split: if_splits)

lemma import_one_child:
  assumes "import_name = original_name \<or> join_sets_path import_name = Child import_name"
  shows "import_one h e original_name import_name set_dir st =
     (case copy_fault h original_name import_name of
        Some r \<Rightarrow>
          (case r of
             None \<Rightarrow>
               st\<lparr>disk := fmdrop import_name (disk st),
                  ignored := ignored st @ [original_name]\<rparr>
           | Some partial \<Rightarrow>
               st\<lparr>disk := fmupd import_name partial (disk st), sets_gone := False,
                  ignored := ignored st @ [original_name]\<rparr>)
      | None \<Rightarrow>
          (case (if import_name \<noteq> original_name
                 then rename_metadata e import_name set_dir
                 else Inr set_dir) of
             Inl x \<Rightarrow>
               st\<lparr>disk := fmupd import_name set_dir (disk st), sets_gone := False,
                  ignored := ignored st @ [original_name]\<rparr>
           | Inr dest_dir \<Rightarrow>
               st\<lparr>disk := fmupd import_name dest_dir (disk st), sets_gone := False,
                  existing_sets := finsert import_name (existing_sets st),
                  imported := imported st @ [import_name]\<rparr>))"
proof -
  have "(if import_name = original_name then Child import_name
         else join_sets_path import_name) = Child import_name"
    using assms by auto
  then show ?thesis by (simp add: import_one_def)
qed

lemma import_one_disk_other:
  assumes "m = orig \<or> join_sets_path m = Child m" and "x \<noteq> m"
  shows "fmlookup (disk (import_one h e orig m d st)) x = fmlookup (disk st) x"
  using assms(2)
  by (simp add: import_one_child [OF assms(1)] split: option.splits sum.splits)

lemma import_one_existing_cases:
  "existing_sets (import_one h e orig m d st) = existing_sets st
   \<and> imported (import_one h e orig m d st) = imported st
   \<and> ignored (import_one h e orig m d st) = ignored st @ [orig]
   \<or> existing_sets (import_one h e orig m d st) = finsert m (existing_sets st)
   \<and> imported (import_one h e orig m d st) = imported st @ [m]
   \<and> ignored (import_one h e orig m d st) = ignored st"
  by (simp add: import_one_def split: option.splits sum.splits dest.splits)

lemma import_one_existing:
  "x |\<in>| existing_sets st \<Longrightarrow> x |\<in>| existing_sets (import_one h e orig m d st)"
  using import_one_existing_cases [of h e orig m d st] by auto

lemma import_one_renamed: "renamed (import_one h e orig m d st) = renamed st"
  by (simp add: import_one_def split: option.splits sum.splits dest.splits)

lemma import_one_ignore_all: "ignore_all (import_one h e orig m d st) = ignore_all st"
  by (simp add: import_one_def split: option.splits sum.splits dest.splits)

lemma import_one_raised: "raised (import_one h e orig m d st) = raised st"
  by (simp add: import_one_def split: option.splits sum.splits dest.splits)

lemma merge_step_disj:
  "merge_step h e st entry = st
   \<or> merge_step h e st entry = st\<lparr>raised := True\<rparr>
   \<or> merge_step h e st entry = st\<lparr>ignored := ignored st @ [fst entry]\<rparr>
   \<or> merge_step h e st entry = st\<lparr>ignore_all := True, ignored := ignored st @ [fst entry]\<rparr>
   \<or> merge_step h e st entry = import_one h e (fst entry) (fst entry) (snd entry) st
   \<or> (\<exists>m. merge_step h e st entry
            = import_one h e (fst entry) m (snd entry)
                (st\<lparr>renamed := renamed st @ [(fst entry, m)]\<rparr>)
          \<and> (m |\<notin>| existing_sets st \<and> join_sets_path m = Child m
             \<or> fst (validate_set_name m (disk st))))"
proof (cases "raised st")
  case True
  then show ?thesis by (simp add: merge_step_def Let_def)
next
  case nr: False
  show ?thesis
  proof (cases "fst entry |\<in>| existing_sets st")
    case False
    with nr show ?thesis by (simp add: merge_step_def Let_def)
  next
    case coll: True
    show ?thesis
    proof (cases "ignore_all st")
      case True
      with nr coll show ?thesis by (simp add: merge_step_def Let_def)
    next
      case noall: False
      show ?thesis
      proof (cases "conflict_dialog h")
        case None
        with nr coll noall have "merge_step h e st entry
            = import_one h e (fst entry) (auto_rename (fst entry) (existing_sets st) 2)
                (snd entry)
                (st\<lparr>renamed := renamed st
                     @ [(fst entry, auto_rename (fst entry) (existing_sets st) 2)]\<rparr>)"
          by (simp add: merge_step_def Let_def)
        then show ?thesis using auto_rename_free auto_rename_child by blast
      next
        case (Some dialog)
        show ?thesis
        proof (cases "dialog (fst entry) (auto_rename (fst entry) (existing_sets st) 2)")
          case (Import new_name)
          show ?thesis
          proof (cases "sets_gone st \<and> name_checks new_name")
            case True
            with nr coll noall Some Import show ?thesis by (simp add: merge_step_def Let_def)
          next
            case ok: False
            show ?thesis
            proof (cases "fst (validate_set_name new_name (disk st))")
              case True
              with nr coll noall Some Import ok have "merge_step h e st entry
                  = import_one h e (fst entry) new_name (snd entry)
                      (st\<lparr>renamed := renamed st @ [(fst entry, new_name)]\<rparr>)"
                by (auto simp: merge_step_def Let_def)
              with True show ?thesis by blast
            next
              case False
              with nr coll noall Some Import ok show ?thesis
                by (auto simp: merge_step_def Let_def)
            qed
          qed
        next
          case Ignore
          with nr coll noall Some show ?thesis by (simp add: merge_step_def Let_def)
        next
          case IgnoreAll
          with nr coll noall Some show ?thesis by (simp add: merge_step_def Let_def)
        next
          case Closed
          with nr coll noall Some show ?thesis by (simp add: merge_step_def Let_def)
        qed
      qed
    qed
  qed
qed

lemma merge_step_cases:
  obtains (stopped) "merge_step h e st entry = st"
  | (raise) "merge_step h e st entry = st\<lparr>raised := True\<rparr>"
  | (ignore) "merge_step h e st entry = st\<lparr>ignored := ignored st @ [fst entry]\<rparr>"
  | (ignore_all)
      "merge_step h e st entry = st\<lparr>ignore_all := True, ignored := ignored st @ [fst entry]\<rparr>"
  | (plain) "merge_step h e st entry = import_one h e (fst entry) (fst entry) (snd entry) st"
  | (rename) m where
      "merge_step h e st entry
         = import_one h e (fst entry) m (snd entry)
             (st\<lparr>renamed := renamed st @ [(fst entry, m)]\<rparr>)"
      "m |\<notin>| existing_sets st \<and> join_sets_path m = Child m
       \<or> fst (validate_set_name m (disk st))"
  using merge_step_disj [of h e st entry] by blast

lemma headless_step:
  assumes "conflict_dialog h = None" and "\<not> ignore_all st" and "\<not> raised st"
  shows "merge_step h e st entry
       = (if fst entry |\<in>| existing_sets st
          then import_one h e (fst entry) (auto_rename (fst entry) (existing_sets st) 2)
                 (snd entry)
                 (st\<lparr>renamed := renamed st
                      @ [(fst entry, auto_rename (fst entry) (existing_sets st) 2)]\<rparr>)
          else import_one h e (fst entry) (fst entry) (snd entry) st)"
  using assms by (simp add: merge_step_def Let_def)

lemma headless_step_flags:
  assumes "conflict_dialog h = None" and "\<not> ignore_all st" and "\<not> raised st"
  shows "\<not> ignore_all (merge_step h e st entry) \<and> \<not> raised (merge_step h e st entry)"
  using assms by (simp add: headless_step import_one_ignore_all import_one_raised)

lemma headless_step_frame:
  assumes "conflict_dialog h = None" and "\<not> ignore_all st" and "\<not> raised st"
      and "x |\<in>| existing_sets st"
  shows "fmlookup (disk (merge_step h e st entry)) x = fmlookup (disk st) x
       \<and> x |\<in>| existing_sets (merge_step h e st entry)"
proof (cases "fst entry |\<in>| existing_sets st")
  case True
  have "x \<noteq> auto_rename (fst entry) (existing_sets st) 2"
    using assms(4) auto_rename_free by metis
  then show ?thesis
    using assms True
    by (simp add: headless_step import_one_disk_other import_one_existing auto_rename_child)
next
  case False
  with assms(4) have "x \<noteq> fst entry" by auto
  then show ?thesis
    using assms False by (simp add: headless_step import_one_disk_other import_one_existing)
qed

lemma headless_fold:
  assumes "conflict_dialog h = None"
  shows "\<not> ignore_all st \<Longrightarrow> \<not> raised st \<Longrightarrow> x |\<in>| existing_sets st \<Longrightarrow>
         fmlookup (disk (foldl (merge_step h e) st xs)) x = fmlookup (disk st) x
         \<and> x |\<in>| existing_sets (foldl (merge_step h e) st xs)"
proof (induction xs arbitrary: st)
  case Nil
  then show ?case by simp
next
  case (Cons y ys)
  have a: "\<not> ignore_all (merge_step h e st y)" "\<not> raised (merge_step h e st y)"
    using headless_step_flags [OF assms Cons.prems(1,2)] by blast+
  have b: "fmlookup (disk (merge_step h e st y)) x = fmlookup (disk st) x"
    "x |\<in>| existing_sets (merge_step h e st y)"
    using headless_step_frame [OF assms Cons.prems] by blast+
  from Cons.IH [OF a b(2)] b(1) show ?case by simp
qed

lemma headless_fold_flags:
  assumes "conflict_dialog h = None"
  shows "\<not> ignore_all st \<Longrightarrow> \<not> raised st \<Longrightarrow>
         \<not> ignore_all (foldl (merge_step h e) st xs) \<and> \<not> raised (foldl (merge_step h e) st xs)"
proof (induction xs arbitrary: st)
  case Nil
  then show ?case by simp
next
  case (Cons y ys)
  have "\<not> ignore_all (merge_step h e st y)" "\<not> raised (merge_step h e st y)"
    using headless_step_flags [OF assms Cons.prems] by blast+
  from Cons.IH [OF this] show ?case by simp
qed

lemma import_one_lists_grow:
  "set (imported st) \<subseteq> set (imported (import_one h e orig m d st))
   \<and> set (ignored st) \<subseteq> set (ignored (import_one h e orig m d st))
   \<and> set (renamed st) \<subseteq> set (renamed (import_one h e orig m d st))"
  using import_one_existing_cases [of h e orig m d st]
  by (auto simp: import_one_renamed)

lemma merge_step_lists_grow:
  "set (imported st) \<subseteq> set (imported (merge_step h e st entry))
   \<and> set (ignored st) \<subseteq> set (ignored (merge_step h e st entry))
   \<and> set (renamed st) \<subseteq> set (renamed (merge_step h e st entry))"
proof (cases rule: merge_step_cases [of h e st entry])
  case stopped
  show ?thesis by (simp only: stopped) simp
next
  case raise
  show ?thesis by (simp only: raise) simp
next
  case ignore
  show ?thesis by (simp only: ignore) auto
next
  case ignore_all
  show ?thesis by (simp only: ignore_all) auto
next
  case plain
  show ?thesis by (simp only: plain import_one_lists_grow)
next
  case (rename m)
  have "set (renamed st) \<subseteq> set (renamed (st\<lparr>renamed := renamed st @ [(fst entry, m)]\<rparr>))"
    by auto
  with import_one_lists_grow [of "st\<lparr>renamed := renamed st @ [(fst entry, m)]\<rparr>"
      h e "fst entry" m "snd entry"]
  show ?thesis by (simp only: rename(1)) auto
qed

lemma fold_lists_grow:
  "set (imported st) \<subseteq> set (imported (foldl (merge_step h e) st xs))
   \<and> set (ignored st) \<subseteq> set (ignored (foldl (merge_step h e) st xs))
   \<and> set (renamed st) \<subseteq> set (renamed (foldl (merge_step h e) st xs))"
proof (induction xs arbitrary: st)
  case Nil
  show ?case by simp
next
  case (Cons y ys)
  have a: "set (imported st) \<subseteq> set (imported (merge_step h e st y))"
    "set (ignored st) \<subseteq> set (ignored (merge_step h e st y))"
    "set (renamed st) \<subseteq> set (renamed (merge_step h e st y))"
    using merge_step_lists_grow [of st h e y] by blast+
  have b: "set (imported (merge_step h e st y))
        \<subseteq> set (imported (foldl (merge_step h e) (merge_step h e st y) ys))"
    "set (ignored (merge_step h e st y))
        \<subseteq> set (ignored (foldl (merge_step h e) (merge_step h e st y) ys))"
    "set (renamed (merge_step h e st y))
        \<subseteq> set (renamed (foldl (merge_step h e) (merge_step h e st y) ys))"
    using Cons.IH [of "merge_step h e st y"] by blast+
  show ?case
    using a b by (simp only: foldl_Cons) (blast intro: subset_trans)
qed

lemma import_vault_merge:
  assumes "imported_sets a = Some staged"
      and "\<not> raised (merge_sets h e staged (sets_path v))"
  shows "import_vault h e (Zip a) ''merge'' v
       = (Inr (Some (import_results.truncate (merge_sets h e staged (sets_path v)))),
          v\<lparr>icon_manager := merge_icons h (imported_icons a) (icon_manager v),
            sets_path := disk (merge_sets h e staged (sets_path v))\<rparr>)"
  using assms by (simp add: import_vault_def Let_def)

lemma truncate_fields:
  "imported (import_results.truncate st) = imported st"
  "ignored (import_results.truncate st) = ignored st"
  "renamed (import_results.truncate st) = renamed st"
  by (simp_all add: import_results.truncate_def)

lemma import_one_accounts:
  assumes "fset (existing_sets st) = A \<union> set (imported st)"
  shows "fset (existing_sets (import_one h e orig m d st))
       = A \<union> set (imported (import_one h e orig m d st))"
proof -
  from import_one_existing_cases [of h e orig m d st] show ?thesis
  proof (elim disjE conjE)
    assume "existing_sets (import_one h e orig m d st) = existing_sets st"
      and "imported (import_one h e orig m d st) = imported st"
    then show ?thesis using assms by (simp only:)
  next
    assume "existing_sets (import_one h e orig m d st) = finsert m (existing_sets st)"
      and "imported (import_one h e orig m d st) = imported st @ [m]"
    then show ?thesis using assms by (simp only:) simp
  qed
qed

lemma merge_step_accounts:
  assumes "fset (existing_sets st) = A \<union> set (imported st)"
  shows "fset (existing_sets (merge_step h e st entry))
       = A \<union> set (imported (merge_step h e st entry))"
proof (cases rule: merge_step_cases [of h e st entry])
  case stopped
  show ?thesis using assms by (simp only: stopped)
next
  case raise
  show ?thesis using assms by (simp only: raise) simp
next
  case ignore
  show ?thesis using assms by (simp only: ignore) simp
next
  case ignore_all
  show ?thesis using assms by (simp only: ignore_all) simp
next
  case plain
  show ?thesis using assms by (simp only: plain) (rule import_one_accounts)
next
  case (rename m)
  have "fset (existing_sets (st\<lparr>renamed := renamed st @ [(fst entry, m)]\<rparr>))
      = A \<union> set (imported (st\<lparr>renamed := renamed st @ [(fst entry, m)]\<rparr>))"
    using assms by simp
  then show ?thesis by (simp only: rename(1)) (rule import_one_accounts)
qed

lemma fold_accounts:
  "fset (existing_sets st) = A \<union> set (imported st)
   \<Longrightarrow> fset (existing_sets (foldl (merge_step h e) st xs))
       = A \<union> set (imported (foldl (merge_step h e) st xs))"
proof (induction xs arbitrary: st)
  case Nil
  then show ?case by simp
next
  case (Cons y ys)
  have "fset (existing_sets (merge_step h e st y)) = A \<union> set (imported (merge_step h e st y))"
    using Cons.prems by (rule merge_step_accounts)
  from Cons.IH [OF this] show ?case by (simp only: foldl_Cons)
qed

lemma start_accounts:
  "fset (existing_sets (merge_start sets))
   = set (get_available_sets sets) \<union> set (imported (merge_start sets))"
  by (simp add: merge_start_def fset_of_list.rep_eq)

lemma import_one_success:
  assumes "copy_fault h orig m = None" and "m \<noteq> orig" and "join_sets_path m = Child m"
      and "rename_metadata e m d = Inr d'"
  shows "import_one h e orig m d st
       = st\<lparr>disk := fmupd m d' (disk st), sets_gone := False,
            existing_sets := finsert m (existing_sets st),
            imported := imported st @ [m]\<rparr>"
  using assms by (simp add: import_one_child)

section \<open>Name conflicts in a vault import\<close>

lemma S2_name: "auto_rename ''S'' (existing_sets (merge_start (sets_path vault_with_S))) 2 = ''S 2''"
  by code_simp

lemma S_taken: "''S'' |\<in>| existing_sets (merge_start (sets_path vault_with_S))"
  by code_simp

lemma S_available: "''S'' \<in> set (get_available_sets (sets_path vault_with_S))"
  by code_simp

lemma S_dir_renamed: "\<exists>d'. rename_metadata e ''S 2'' S_dir = Inr d'"
  by (simp add: rename_metadata_def S_dir_def to_dict_def)

text \<open>
  Claim C4. Without a conflict dialog (PyQt not available), take a staged set \<open>n\<close> whose
  name is taken when its turn comes, \<open>st\<close> being the state of the loop at that moment,
  and whose copy and metadata rewriting do not fail. It is imported under
  \<open>n k\<close> for the lowest \<open>k \<ge> 2\<close> such that \<open>n k\<close> is not taken, the taken names being
  those of the sets of the vault and of the sets imported earlier in the operation; the
  pair \<open>(n, n k)\<close> is in the renamed list of the result, \<open>n k\<close> is in its imported list
  and the directory stored under \<open>n k\<close> is the staged one with its name rewritten; and
  every set the vault had before is still there unchanged.
\<close>

theorem headless_auto_rename:
  assumes headless: "conflict_dialog h = None"
      and staged: "imported_sets a = Some (pre @ (n, d) # post)"
      and st: "st = foldl (merge_step h e) (merge_start (sets_path v)) pre"
      and coll: "n |\<in>| existing_sets st"
      and copy: "copy_fault h n (auto_rename n (existing_sets st) 2) = None"
      and meta: "rename_metadata e (auto_rename n (existing_sets st) 2) d = Inr d'"
  shows "\<exists>k res v'. 2 \<le> k
           \<and> auto_rename n (existing_sets st) 2 = n @ '' '' @ py_str k
           \<and> n @ '' '' @ py_str k |\<notin>| existing_sets st
           \<and> (\<forall>j. 2 \<le> j \<and> j < k \<longrightarrow> n @ '' '' @ py_str j |\<in>| existing_sets st)
           \<and> fset (existing_sets st) = set (get_available_sets (sets_path v)) \<union> set (imported st)
           \<and> import_vault h e (Zip a) ''merge'' v = (Inr (Some res), v')
           \<and> (n, n @ '' '' @ py_str k) \<in> set (renamed res)
           \<and> n @ '' '' @ py_str k \<in> set (imported res)
           \<and> fmlookup (sets_path v') (n @ '' '' @ py_str k) = Some d'
           \<and> (\<forall>x. x \<in> set (get_available_sets (sets_path v)) \<longrightarrow>
                  fmlookup (sets_path v') x = fmlookup (sets_path v) x)"
proof -
  define m where "m = auto_rename n (existing_sets st) 2"
  define st1 where "st1 = merge_step h e st (n, d)"
  define fin where "fin = merge_sets h e (pre @ (n, d) # post) (sets_path v)"
  define v' where "v' = v\<lparr>icon_manager := merge_icons h (imported_icons a) (icon_manager v),
      sets_path := disk fin\<rparr>"
  obtain k where k: "2 \<le> k" "m = n @ '' '' @ py_str k" "n @ '' '' @ py_str k |\<notin>| existing_sets st"
    "\<forall>j. 2 \<le> j \<and> j < k \<longrightarrow> n @ '' '' @ py_str j |\<in>| existing_sets st"
    using auto_rename_spec [of 2 n "existing_sets st"] unfolding m_def by blast
  have acc: "fset (existing_sets st)
      = set (get_available_sets (sets_path v)) \<union> set (imported st)"
    unfolding st by (rule fold_accounts [OF start_accounts])
  have na0: "\<not> ignore_all (merge_start (sets_path v))" by (simp add: merge_start_def)
  have nr0: "\<not> raised (merge_start (sets_path v))" by (simp add: merge_start_def)
  have na: "\<not> ignore_all st" and nr: "\<not> raised st"
    unfolding st using headless_fold_flags [OF headless na0 nr0] by blast+
  have mn: "m \<noteq> n" using coll k(2,3) by auto
  have child: "join_sets_path m = Child m" unfolding m_def by (rule auto_rename_child)
  have step: "merge_step h e st (n, d)
      = import_one h e n m d (st\<lparr>renamed := renamed st @ [(n, m)]\<rparr>)"
    using coll by (simp add: headless_step [OF headless na nr] m_def)
  have "import_one h e n m d (st\<lparr>renamed := renamed st @ [(n, m)]\<rparr>)
      = (st\<lparr>renamed := renamed st @ [(n, m)]\<rparr>)
          \<lparr>disk := fmupd m d' (disk (st\<lparr>renamed := renamed st @ [(n, m)]\<rparr>)),
           sets_gone := False,
           existing_sets := finsert m (existing_sets (st\<lparr>renamed := renamed st @ [(n, m)]\<rparr>)),
           imported := imported (st\<lparr>renamed := renamed st @ [(n, m)]\<rparr>) @ [m]\<rparr>"
    using copy mn child meta unfolding m_def [symmetric] by (rule import_one_success)
  then have st1_fields: "disk st1 = fmupd m d' (disk st)"
    "existing_sets st1 = finsert m (existing_sets st)"
    "imported st1 = imported st @ [m]"
    "renamed st1 = renamed st @ [(n, m)]"
    unfolding st1_def step by simp_all
  have fin_eq: "fin = foldl (merge_step h e) st1 post"
    unfolding fin_def merge_sets_def st st1_def by simp
  have na1: "\<not> ignore_all st1" and nr1: "\<not> raised st1"
    unfolding st1_def using headless_step_flags [OF headless na nr] by blast+
  have m1: "m |\<in>| existing_sets st1" by (simp add: st1_fields)
  have "fmlookup (disk fin) m = fmlookup (disk st1) m"
    unfolding fin_eq using headless_fold [OF headless na1 nr1 m1] by blast
  then have disk_m: "fmlookup (disk fin) m = Some d'" by (simp add: st1_fields)
  have grow: "set (imported st1) \<subseteq> set (imported fin)" "set (renamed st1) \<subseteq> set (renamed fin)"
    using fold_lists_grow [of st1 h e post] unfolding fin_eq by blast+
  have ren: "(n, m) \<in> set (renamed fin)" using grow(2) by (auto simp: st1_fields)
  have imp: "m \<in> set (imported fin)" using grow(1) by (auto simp: st1_fields)
  have frame: "\<forall>x. x \<in> set (get_available_sets (sets_path v)) \<longrightarrow>
      fmlookup (sets_path v') x = fmlookup (sets_path v) x"
  proof (intro allI impI)
    fix x assume "x \<in> set (get_available_sets (sets_path v))"
    then have x: "x |\<in>| existing_sets (merge_start (sets_path v))"
      by (simp add: merge_start_def fset_of_list.rep_eq)
    have "fmlookup (disk fin) x = fmlookup (disk (merge_start (sets_path v))) x"
      unfolding fin_def merge_sets_def using headless_fold [OF headless na0 nr0 x] by blast
    then show "fmlookup (sets_path v') x = fmlookup (sets_path v) x"
      by (simp add: v'_def merge_start_def)
  qed
  have nrf: "\<not> raised (merge_sets h e (pre @ (n, d) # post) (sets_path v))"
    unfolding merge_sets_def using headless_fold_flags [OF headless na0 nr0] by blast
  have run: "import_vault h e (Zip a) ''merge'' v = (Inr (Some (import_results.truncate fin)), v')"
    unfolding fin_def v'_def using staged nrf by (rule import_vault_merge)
  have c1: "auto_rename n (existing_sets st) 2 = n @ '' '' @ py_str k"
    using k(2) by (simp add: m_def)
  have c2: "(n, n @ '' '' @ py_str k) \<in> set (renamed (import_results.truncate fin))"
    using ren k(2) by (simp add: truncate_fields)
  have c3: "n @ '' '' @ py_str k \<in> set (imported (import_results.truncate fin))"
    using imp k(2) by (simp add: truncate_fields)
  have c4: "fmlookup (sets_path v') (n @ '' '' @ py_str k) = Some d'"
    using disk_m k(2) by (simp add: v'_def)
  show ?thesis
    using k(1) c1 k(3) k(4) acc run c2 c3 c4 frame by blast
qed

theorem headless_auto_rename_witness:
  "\<exists>res v'. import_vault host0 \<lparr>now = ''t1'', uuid4 = ''u1''\<rparr> S_vault_archive ''merge''
               vault_with_S = (Inr (Some res), v')
     \<and> (''S'', ''S 2'') \<in> set (renamed res)
     \<and> ''S 2'' \<in> set (imported res)
     \<and> fmlookup (sets_path v') ''S 2'' \<noteq> None
     \<and> fmlookup (sets_path v') ''S'' = fmlookup (sets_path vault_with_S) ''S''"
proof -
  obtain d' where d': "rename_metadata \<lparr>now = ''t1'', uuid4 = ''u1''\<rparr> ''S 2'' S_dir = Inr d'"
    using S_dir_renamed by blast
  have "\<exists>k res v'. 2 \<le> k
      \<and> auto_rename ''S'' (existing_sets (merge_start (sets_path vault_with_S))) 2
          = ''S'' @ '' '' @ py_str k
      \<and> ''S'' @ '' '' @ py_str k |\<notin>| existing_sets (merge_start (sets_path vault_with_S))
      \<and> (\<forall>j. 2 \<le> j \<and> j < k \<longrightarrow>
            ''S'' @ '' '' @ py_str j |\<in>| existing_sets (merge_start (sets_path vault_with_S)))
      \<and> fset (existing_sets (merge_start (sets_path vault_with_S)))
          = set (get_available_sets (sets_path vault_with_S))
            \<union> set (imported (merge_start (sets_path vault_with_S)))
      \<and> import_vault host0 \<lparr>now = ''t1'', uuid4 = ''u1''\<rparr>
            (Zip \<lparr>imported_sets = Some [(''S'', S_dir)], imported_icons = None\<rparr>) ''merge''
            vault_with_S = (Inr (Some res), v')
      \<and> (''S'', ''S'' @ '' '' @ py_str k) \<in> set (renamed res)
      \<and> ''S'' @ '' '' @ py_str k \<in> set (imported res)
      \<and> fmlookup (sets_path v') (''S'' @ '' '' @ py_str k) = Some d'
      \<and> (\<forall>x. x \<in> set (get_available_sets (sets_path vault_with_S)) \<longrightarrow>
             fmlookup (sets_path v') x = fmlookup (sets_path vault_with_S) x)"
    by (rule headless_auto_rename [where pre = "[]" and post = "[]" and d = S_dir])
       (simp_all add: host0_def S2_name S_taken d')
  then obtain k res v' where r:
    "auto_rename ''S'' (existing_sets (merge_start (sets_path vault_with_S))) 2
       = ''S'' @ '' '' @ py_str k"
    "import_vault host0 \<lparr>now = ''t1'', uuid4 = ''u1''\<rparr>
       (Zip \<lparr>imported_sets = Some [(''S'', S_dir)], imported_icons = None\<rparr>) ''merge''
       vault_with_S = (Inr (Some res), v')"
    "(''S'', ''S'' @ '' '' @ py_str k) \<in> set (renamed res)"
    "''S'' @ '' '' @ py_str k \<in> set (imported res)"
    "fmlookup (sets_path v') (''S'' @ '' '' @ py_str k) = Some d'"
    "\<forall>x. x \<in> set (get_available_sets (sets_path vault_with_S)) \<longrightarrow>
       fmlookup (sets_path v') x = fmlookup (sets_path vault_with_S) x"
    by blast
  from r(1) have nm: "''S'' @ '' '' @ py_str k = ''S 2''" by (simp only: S2_name)
  from r(6) S_available
  have "fmlookup (sets_path v') ''S'' = fmlookup (sets_path vault_with_S) ''S''" by blast
  with r(2-5) show ?thesis unfolding nm S_vault_archive_def by auto
qed

subsection \<open>The Ignore decision\<close>

text \<open>
  When every name that the dialog gives is other than \<open>.\<close> and \<open>..\<close>, each import goes
  to a directory under the sets folder, the sets folder stays, and no exception leaves
  the loop.
\<close>

lemma validate_set_name_nonempty: "fst (validate_set_name nm sets) \<Longrightarrow> nm \<noteq> []"
  by (auto simp: validate_set_name_def split: if_splits)

lemma ordinary_step_disj:
  assumes ord: "\<forall>dialog x y. conflict_dialog h = Some dialog
                 \<longrightarrow> dialog x y \<noteq> Import ''.'' \<and> dialog x y \<noteq> Import ''..''"
      and here: "\<not> sets_gone st" and nr: "\<not> raised st"
  shows "merge_step h e st entry = st\<lparr>ignored := ignored st @ [fst entry]\<rparr>
   \<or> merge_step h e st entry = st\<lparr>ignore_all := True, ignored := ignored st @ [fst entry]\<rparr>
   \<or> merge_step h e st entry = import_one h e (fst entry) (fst entry) (snd entry) st
   \<or> (\<exists>m. merge_step h e st entry
            = import_one h e (fst entry) m (snd entry)
                (st\<lparr>renamed := renamed st @ [(fst entry, m)]\<rparr>)
          \<and> join_sets_path m = Child m
          \<and> (m |\<notin>| existing_sets st \<or> m \<notin> set (get_available_sets (disk st))))"
proof (cases "fst entry |\<in>| existing_sets st")
  case False
  with nr show ?thesis by (simp add: merge_step_def Let_def)
next
  case coll: True
  show ?thesis
  proof (cases "ignore_all st")
    case True
    with nr coll show ?thesis by (simp add: merge_step_def Let_def)
  next
    case noall: False
    show ?thesis
    proof (cases "conflict_dialog h")
      case None
      with nr coll noall have "merge_step h e st entry
          = import_one h e (fst entry) (auto_rename (fst entry) (existing_sets st) 2)
              (snd entry)
              (st\<lparr>renamed := renamed st
                   @ [(fst entry, auto_rename (fst entry) (existing_sets st) 2)]\<rparr>)"
        by (simp add: merge_step_def Let_def)
      then show ?thesis using auto_rename_free auto_rename_child by blast
    next
      case (Some dialog)
      show ?thesis
      proof (cases "dialog (fst entry) (auto_rename (fst entry) (existing_sets st) 2)")
        case (Import new_name)
        show ?thesis
        proof (cases "fst (validate_set_name new_name (disk st))")
          case True
          with nr here coll noall Some Import have eq: "merge_step h e st entry
              = import_one h e (fst entry) new_name (snd entry)
                  (st\<lparr>renamed := renamed st @ [(fst entry, new_name)]\<rparr>)"
            by (auto simp: merge_step_def Let_def)
          have "new_name \<noteq> ''.'' \<and> new_name \<noteq> ''..''" using ord Some Import by auto
          moreover have "new_name \<noteq> []" using True by (rule validate_set_name_nonempty)
          ultimately have child: "join_sets_path new_name = Child new_name"
            by (simp add: join_sets_path_def)
          have "new_name \<notin> set (get_available_sets (disk st))"
            using True by (rule validate_set_name_free)
          with eq child show ?thesis by blast
        next
          case False
          with nr here coll noall Some Import show ?thesis
            by (auto simp: merge_step_def Let_def)
        qed
      next
        case Ignore
        with nr coll noall Some show ?thesis by (simp add: merge_step_def Let_def)
      next
        case IgnoreAll
        with nr coll noall Some show ?thesis by (simp add: merge_step_def Let_def)
      next
        case Closed
        with nr coll noall Some show ?thesis by (simp add: merge_step_def Let_def)
      qed
    qed
  qed
qed

lemma ordinary_step_cases:
  assumes "\<forall>dialog x y. conflict_dialog h = Some dialog
                 \<longrightarrow> dialog x y \<noteq> Import ''.'' \<and> dialog x y \<noteq> Import ''..''"
      and "\<not> sets_gone st" and "\<not> raised st"
  obtains (ignore) "merge_step h e st entry = st\<lparr>ignored := ignored st @ [fst entry]\<rparr>"
  | (ignore_all)
      "merge_step h e st entry = st\<lparr>ignore_all := True, ignored := ignored st @ [fst entry]\<rparr>"
  | (plain) "merge_step h e st entry = import_one h e (fst entry) (fst entry) (snd entry) st"
  | (rename) m where
      "merge_step h e st entry
         = import_one h e (fst entry) m (snd entry)
             (st\<lparr>renamed := renamed st @ [(fst entry, m)]\<rparr>)"
      "join_sets_path m = Child m"
      "m |\<notin>| existing_sets st \<or> m \<notin> set (get_available_sets (disk st))"
  using ordinary_step_disj [OF assms, where e = e and entry = entry] by blast

lemma import_one_child_flags:
  assumes "m = orig \<or> join_sets_path m = Child m" and "\<not> sets_gone st"
  shows "\<not> sets_gone (import_one h e orig m d st)"
  using assms(2) by (simp add: import_one_child [OF assms(1)] split: option.splits sum.splits)

lemma import_one_untouched:
  assumes "untouched sets n st" and "m \<noteq> n" and "m = orig \<or> join_sets_path m = Child m"
  shows "untouched sets n (import_one h e orig m d st)"
proof -
  have "fmlookup (disk (import_one h e orig m d st)) n = fmlookup (disk st) n"
    using assms(3) assms(2) [symmetric] by (rule import_one_disk_other)
  moreover have "n |\<in>| existing_sets (import_one h e orig m d st)"
    using assms(1) by (simp add: untouched_def import_one_existing)
  moreover have "n \<notin> set (imported (import_one h e orig m d st))"
    using import_one_existing_cases [of h e orig m d st] assms(1,2) by (auto simp: untouched_def)
  ultimately show ?thesis
    using assms(1) by (simp add: untouched_def import_one_renamed)
qed

lemma untouched_available:
  assumes "set_file sets n \<noteq> None" and "untouched sets n st"
  shows "n \<in> set (get_available_sets (disk st))"
  using assms by (simp add: available_iff untouched_def set_file_def)

lemma ordinary_step:
  assumes ord: "\<forall>dialog x y. conflict_dialog h = Some dialog
                 \<longrightarrow> dialog x y \<noteq> Import ''.'' \<and> dialog x y \<noteq> Import ''..''"
      and here: "\<not> sets_gone st" and nr: "\<not> raised st"
  shows "\<not> sets_gone (merge_step h e st entry) \<and> \<not> raised (merge_step h e st entry)"
  using ord here nr
proof (cases rule: ordinary_step_cases [where e = e and entry = entry])
  case ignore
  show ?thesis using here nr by (simp only: ignore) simp
next
  case ignore_all
  show ?thesis using here nr by (simp only: ignore_all) simp
next
  case plain
  show ?thesis using here nr
    by (simp only: plain) (simp add: import_one_child_flags import_one_raised)
next
  case (rename m)
  have "\<not> sets_gone (st\<lparr>renamed := renamed st @ [(fst entry, m)]\<rparr>)" using here by simp
  with rename(2) have "\<not> sets_gone (import_one h e (fst entry) m (snd entry)
      (st\<lparr>renamed := renamed st @ [(fst entry, m)]\<rparr>))"
    by (simp add: import_one_child_flags)
  then show ?thesis using nr by (simp only: rename(1)) (simp add: import_one_raised)
qed

lemma untouched_step:
  assumes ord: "\<forall>dialog x y. conflict_dialog h = Some dialog
                 \<longrightarrow> dialog x y \<noteq> Import ''.'' \<and> dialog x y \<noteq> Import ''..''"
      and here: "\<not> sets_gone st" and nr: "\<not> raised st"
      and sf: "set_file sets n \<noteq> None" and u: "untouched sets n st" and ne: "fst entry \<noteq> n"
  shows "untouched sets n (merge_step h e st entry)"
  using ord here nr
proof (cases rule: ordinary_step_cases [where e = e and entry = entry])
  case ignore
  show ?thesis using u by (simp only: ignore) (simp add: untouched_def)
next
  case ignore_all
  show ?thesis using u by (simp only: ignore_all) (simp add: untouched_def)
next
  case plain
  have "untouched sets n (import_one h e (fst entry) (fst entry) (snd entry) st)"
    using u ne by (rule import_one_untouched) simp
  then show ?thesis by (simp only: plain)
next
  case (rename m)
  have mn: "m \<noteq> n"
    using rename(3) untouched_available [OF sf u] u by (auto simp: untouched_def)
  have u': "untouched sets n (st\<lparr>renamed := renamed st @ [(fst entry, m)]\<rparr>)"
    using u ne by (simp add: untouched_def)
  have "untouched sets n (import_one h e (fst entry) m (snd entry)
      (st\<lparr>renamed := renamed st @ [(fst entry, m)]\<rparr>))"
    using u' mn by (rule import_one_untouched) (simp add: rename(2))
  then show ?thesis by (simp only: rename(1))
qed

lemma ordinary_fold:
  assumes ord: "\<forall>dialog x y. conflict_dialog h = Some dialog
                 \<longrightarrow> dialog x y \<noteq> Import ''.'' \<and> dialog x y \<noteq> Import ''..''"
  shows "\<not> sets_gone st \<Longrightarrow> \<not> raised st \<Longrightarrow>
         \<not> sets_gone (foldl (merge_step h e) st xs) \<and> \<not> raised (foldl (merge_step h e) st xs)"
proof (induction xs arbitrary: st)
  case Nil
  then show ?case by simp
next
  case (Cons y ys)
  have "\<not> sets_gone (merge_step h e st y)" "\<not> raised (merge_step h e st y)"
    using ordinary_step [OF ord Cons.prems, where e = e and entry = y] by blast+
  from Cons.IH [OF this] show ?case by simp
qed

lemma untouched_fold:
  assumes ord: "\<forall>dialog x y. conflict_dialog h = Some dialog
                 \<longrightarrow> dialog x y \<noteq> Import ''.'' \<and> dialog x y \<noteq> Import ''..''"
      and sf: "set_file sets n \<noteq> None"
  shows "\<not> sets_gone st \<Longrightarrow> \<not> raised st \<Longrightarrow> untouched sets n st \<Longrightarrow> n \<notin> fst ` set xs
         \<Longrightarrow> untouched sets n (foldl (merge_step h e) st xs)"
proof (induction xs arbitrary: st)
  case Nil
  then show ?case by simp
next
  case (Cons y ys)
  from Cons.prems have y: "fst y \<noteq> n" and ys: "n \<notin> fst ` set ys" by auto
  have fl: "\<not> sets_gone (merge_step h e st y)" "\<not> raised (merge_step h e st y)"
    using ordinary_step [OF ord Cons.prems(1,2), where e = e and entry = y] by blast+
  have "untouched sets n (merge_step h e st y)"
    using ord Cons.prems(1,2) sf Cons.prems(3) y by (rule untouched_step)
  from Cons.IH [OF fl this ys] show ?case by simp
qed

lemma untouched_start:
  "n \<in> set (get_available_sets sets) \<Longrightarrow> untouched sets n (merge_start sets)"
  by (simp add: untouched_def merge_start_def fset_of_list.rep_eq)

lemma ignore_step:
  assumes "untouched sets n st" and "\<not> raised st"
      and "ignore_all st \<or> (\<exists>dialog. conflict_dialog h = Some dialog
             \<and> dialog n (auto_rename n (existing_sets st) 2) \<in> {Ignore, IgnoreAll})"
  shows "untouched sets n (merge_step h e st (n, d))
       \<and> n \<in> set (ignored (merge_step h e st (n, d)))"
proof -
  from assms(1) have coll: "n |\<in>| existing_sets st" by (simp add: untouched_def)
  have "merge_step h e st (n, d) = st\<lparr>ignored := ignored st @ [n]\<rparr>
      \<or> merge_step h e st (n, d) = st\<lparr>ignore_all := True, ignored := ignored st @ [n]\<rparr>"
    using assms(2,3) coll by (auto simp: merge_step_def Let_def)
  then show ?thesis
  proof
    assume eq: "merge_step h e st (n, d) = st\<lparr>ignored := ignored st @ [n]\<rparr>"
    show ?thesis using assms(1) by (simp only: eq) (simp add: untouched_def)
  next
    assume eq: "merge_step h e st (n, d) = st\<lparr>ignore_all := True, ignored := ignored st @ [n]\<rparr>"
    show ?thesis using assms(1) by (simp only: eq) (simp add: untouched_def)
  qed
qed

text \<open>
  With such a dialog the Ignore decision protects the set: the operation returns its
  result, the directory of the set is as it was, its name is in the ignored list and
  nothing was imported under it.
\<close>

lemma ignore_keeps_set_under_ordinary_names:
  assumes ord: "\<forall>dialog x y. conflict_dialog h = Some dialog
                 \<longrightarrow> dialog x y \<noteq> Import ''.'' \<and> dialog x y \<noteq> Import ''..''"
      and staged: "imported_sets a = Some (pre @ (n, d) # post)"
      and dist: "distinct (map fst (pre @ (n, d) # post))"
      and avail: "n \<in> set (get_available_sets (sets_path v))"
      and st: "st = foldl (merge_step h e) (merge_start (sets_path v)) pre"
      and dec: "ignore_all st \<or> (\<exists>dialog. conflict_dialog h = Some dialog
                  \<and> dialog n (auto_rename n (existing_sets st) 2) \<in> {Ignore, IgnoreAll})"
  shows "\<exists>res v'. import_vault h e (Zip a) ''merge'' v = (Inr (Some res), v')
           \<and> fmlookup (sets_path v') n = fmlookup (sets_path v) n
           \<and> n \<in> set (ignored res)
           \<and> n \<notin> set (imported res)
           \<and> (\<forall>m. (n, m) \<notin> set (renamed res))"
proof -
  define st1 where "st1 = merge_step h e st (n, d)"
  define fin where "fin = merge_sets h e (pre @ (n, d) # post) (sets_path v)"
  define v' where "v' = v\<lparr>icon_manager := merge_icons h (imported_icons a) (icon_manager v),
      sets_path := disk fin\<rparr>"
  have sf: "set_file (sets_path v) n \<noteq> None" using avail by (simp add: available_iff)
  from dist have npre: "n \<notin> fst ` set pre" and npost: "n \<notin> fst ` set post" by auto
  have h0: "\<not> sets_gone (merge_start (sets_path v))" and r0: "\<not> raised (merge_start (sets_path v))"
    by (simp_all add: merge_start_def)
  have hst: "\<not> sets_gone st" and rst: "\<not> raised st"
    unfolding st using ordinary_fold [OF ord h0 r0, where e = e and xs = pre] by blast+
  have "untouched (sets_path v) n (merge_start (sets_path v))"
    using avail by (rule untouched_start)
  then have u: "untouched (sets_path v) n st"
    unfolding st using npre by (rule untouched_fold [OF ord sf h0 r0])
  have u1: "untouched (sets_path v) n st1" and i1: "n \<in> set (ignored st1)"
    unfolding st1_def using ignore_step [OF u rst dec] by blast+
  have h1: "\<not> sets_gone st1" and r1: "\<not> raised st1"
    unfolding st1_def using ordinary_step [OF ord hst rst, where e = e and entry = "(n, d)"] by blast+
  have fin_eq: "fin = foldl (merge_step h e) st1 post"
    unfolding fin_def merge_sets_def st st1_def by simp
  have ufin: "untouched (sets_path v) n fin"
    unfolding fin_eq using u1 npost by (rule untouched_fold [OF ord sf h1 r1])
  have nrf: "\<not> raised (merge_sets h e (pre @ (n, d) # post) (sets_path v))"
    using ordinary_fold [OF ord h1 r1, where e = e and xs = post] unfolding fin_eq [symmetric] fin_def by blast
  have ign: "n \<in> set (ignored fin)"
    using i1 fold_lists_grow [of st1 h e post] unfolding fin_eq by blast
  have run: "import_vault h e (Zip a) ''merge'' v = (Inr (Some (import_results.truncate fin)), v')"
    unfolding fin_def v'_def using staged nrf by (rule import_vault_merge)
  have c1: "fmlookup (sets_path v') n = fmlookup (sets_path v) n"
    using ufin by (simp add: v'_def untouched_def)
  have c2: "n \<in> set (ignored (import_results.truncate fin))"
    using ign by (simp add: truncate_fields)
  have c3: "n \<notin> set (imported (import_results.truncate fin))"
    using ufin by (simp add: truncate_fields untouched_def)
  have c4: "\<forall>m. (n, m) \<notin> set (renamed (import_results.truncate fin))"
    using ufin by (force simp: truncate_fields untouched_def)
  show ?thesis
    using run c1 c2 c3 c4 by blast
qed

text \<open>
  Claim C5 says that, in a merge-mode vault import, a colliding staged set for which the
  decision is Ignore leaves the set of the vault under that name unchanged and is recorded
  as ignored. The code breaks it when the dialog gives the name \<open>.\<close> or \<open>..\<close> for
  another set of the same import: \<open>validate_set_name\<close> accepts both names, the
  destination is then the sets folder itself (or the vault folder), and \<open>rmtree\<close> removes
  every set of the vault. With the sets \<open>A\<close> and \<open>S\<close> in the vault and in the archive,
  \<open>A\<close> imported under \<open>.\<close> (or under \<open>..\<close>) and \<open>S\<close> ignored, the operation returns
  its result with \<open>S\<close> in the ignored list, and the set \<open>S\<close> of the vault is gone.
\<close>

theorem ignore_does_not_protect_set:
  "fmlookup (sets_path vault_AS) ''S'' = Some (named_dir ''S'')
   \<and> validate_set_name ''.'' (sets_path vault_AS) = (True, '''')
   \<and> fst (import_vault (renaming_host ''.'') \<lparr>now = ''t1'', uuid4 = ''u1''\<rparr> AS_archive ''merge''
            vault_AS)
       = Inr (Some \<lparr>imported = [''.''], ignored = [''S''], renamed = [(''A'', ''.'')]\<rparr>)
   \<and> fmlookup (sets_path (snd (import_vault (renaming_host ''.'')
                  \<lparr>now = ''t1'', uuid4 = ''u1''\<rparr> AS_archive ''merge'' vault_AS))) ''S'' = None
   \<and> validate_set_name ''..'' (sets_path vault_AS) = (True, '''')
   \<and> fst (import_vault (renaming_host ''..'') \<lparr>now = ''t1'', uuid4 = ''u1''\<rparr> AS_archive ''merge''
            vault_AS)
       = Inr (Some \<lparr>imported = [], ignored = [''A'', ''S''], renamed = [(''A'', ''..'')]\<rparr>)
   \<and> fmlookup (sets_path (snd (import_vault (renaming_host ''..'')
                  \<lparr>now = ''t1'', uuid4 = ''u1''\<rparr> AS_archive ''merge'' vault_AS))) ''S'' = None"
  by code_simp

end
